theory Spec2Isabelle
  imports Main "HOL-Library.AList" "HOL-Library.Char_ord" "HOL-Library.List_Lexorder"
begin

section \<open>The tool API of the OctoPrint client (octoprint/tool.go)\<close>

text \<open>
  The file \<^verbatim>\<open>src/octoprint/tool.go\<close> holds six command types. \<^verbatim>\<open>ToolCommand\<close> reads
  the temperature state of the printer's tools with a GET request and decodes the answer
  with \<^verbatim>\<open>ToolResponse.UnmarshalJSON\<close>; the five others post a JSON body. All of them
  go through \<^verbatim>\<open>Client.doRequest\<close> and through Go's \<^verbatim>\<open>encoding/json\<close>.

  Neither of the two is code of this file. \<^verbatim>\<open>encoding/json\<close> is modelled below on the
  abstract syntax of JSON documents, following its documentation; \<^verbatim>\<open>doRequest\<close> is a
  parameter of every \<^verbatim>\<open>Do\<close>.
\<close>

subsection \<open>JSON documents and Go's generic values\<close>

type_synonym bytes = string

text \<open>
  A JSON document. Object members are kept in document order and may repeat a key.
  The type \<open>'n\<close> is the type of numbers: \<^verbatim>\<open>float64\<close> on the reading side (what
  \<^verbatim>\<open>encoding/json\<close> stores in an \<^verbatim>\<open>interface{}\<close>), \<^verbatim>\<open>int\<close> in the bodies of the
  writing commands. No function of tool.go computes with a number.
\<close>

datatype 'n json =
    JNull
  | JBool bool
  | JNumber 'n
  | JString string
  | JArray "'n json list"
  | JObject "(string \<times> 'n json) list"

text \<open>
  The values \<^verbatim>\<open>json.Unmarshal\<close> stores in an \<^verbatim>\<open>interface{}\<close>: \<^verbatim>\<open>nil\<close>, \<^verbatim>\<open>bool\<close>,
  \<^verbatim>\<open>float64\<close>, \<^verbatim>\<open>string\<close>, \<^verbatim>\<open>[]interface{}\<close> and \<^verbatim>\<open>map[string]interface{}\<close>.
  A Go map is an association list read through \<^const>\<open>map_of\<close>: the first pair of a key is
  its entry, and the order of the pairs carries no meaning.
\<close>

datatype 'n iface =
    Nil
  | Bool bool
  | Float64 'n
  | String string
  | Slice "'n iface list"
  | GoMap "(string \<times> 'n iface) list"

text \<open>
  The two errors of \<^verbatim>\<open>encoding/json\<close> that decoding can return: the text is not JSON
  (\<^verbatim>\<open>*json.SyntaxError\<close>), or a JSON value does not fit the Go type it is decoded into
  (\<^verbatim>\<open>*json.UnmarshalTypeError\<close>). Go's \<^verbatim>\<open>error\<close> interface holds either of them, or
  any other error value; \<open>'e\<close> is the type of those others.
\<close>

datatype json_error = SyntaxError | UnmarshalTypeError

datatype 'e error = JsonError json_error | OtherError 'e

text \<open>
  Decoding a document into an \<^verbatim>\<open>interface{}\<close>. Of a repeated key of an object the
  last member is kept: the members are stored into the map one after the other.
\<close>

primrec Unmarshal_iface :: "'n json \<Rightarrow> 'n iface" where
  "Unmarshal_iface JNull = Nil"
| "Unmarshal_iface (JBool b) = Bool b"
| "Unmarshal_iface (JNumber x) = Float64 x"
| "Unmarshal_iface (JString s) = String s"
| "Unmarshal_iface (JArray vs) = Slice (map Unmarshal_iface vs)"
| "Unmarshal_iface (JObject kvs) =
     GoMap (AList.clearjunk (rev (map (map_prod id Unmarshal_iface) kvs)))"

text \<open>
  \<^verbatim>\<open>json.Marshal\<close> of a generic value. The keys of a map are written sorted, each once.
  The result is the document that the bytes returned by \<^verbatim>\<open>json.Marshal\<close> spell:
  \<^verbatim>\<open>encoding/json\<close> reads its own output back (a \<^verbatim>\<open>float64\<close> is printed with the
  digits that identify it, a string is escaped and unescaped), so the model passes the
  document on and not its text. On the values built by \<^const>\<open>Unmarshal_iface\<close>
  \<^verbatim>\<open>json.Marshal\<close> returns no error. The strings of these values are valid UTF-8
  (\<^verbatim>\<open>json.Unmarshal\<close> replaces every invalid byte when it reads a string), so they
  are written as they are.
\<close>

primrec Marshal :: "'n iface \<Rightarrow> 'n json" where
  "Marshal Nil = JNull"
| "Marshal (Bool b) = JBool b"
| "Marshal (Float64 x) = JNumber x"
| "Marshal (String s) = JString s"
| "Marshal (Slice vs) = JArray (map Marshal vs)"
| "Marshal (GoMap m) =
     JObject (sort_key fst (AList.clearjunk (map (map_prod id Marshal) m)))"

text \<open>
  \<^verbatim>\<open>json.Unmarshal(b, &raw)\<close> for \<^verbatim>\<open>var raw map[string]interface{}\<close>. The parameter
  \<open>parse\<close> is the scanner of \<^verbatim>\<open>encoding/json\<close> together with its reading of the
  literals: it returns the document that the bytes spell, or the error (a syntax error, or
  a number outside \<^verbatim>\<open>float64\<close>). JSON \<^verbatim>\<open>null\<close> leaves the map \<^verbatim>\<open>nil\<close> (\<open>None\<close>)
  and is no error; a value that is neither \<^verbatim>\<open>null\<close> nor an object is an
  \<^verbatim>\<open>UnmarshalTypeError\<close>.
\<close>

definition Unmarshal_map ::
  "(bytes \<Rightarrow> json_error + 'n json) \<Rightarrow> bytes \<Rightarrow> json_error + (string \<times> 'n iface) list option"
where
  "Unmarshal_map parse b =
     (case parse b of
        Inl err \<Rightarrow> Inl err
      | Inr j \<Rightarrow>
          (case Unmarshal_iface j of
             Nil \<Rightarrow> Inr None
           | GoMap m \<Rightarrow> Inr (Some m)
           | _ \<Rightarrow> Inl UnmarshalTypeError))"

text \<open>\<^verbatim>\<open>raw[k]\<close>: the zero value \<^verbatim>\<open>nil\<close> when the map is \<^verbatim>\<open>nil\<close> or has no such key.\<close>

definition index :: "(string \<times> 'n iface) list option \<Rightarrow> string \<Rightarrow> 'n iface" where
  "index raw k =
     (case raw of
        None \<Rightarrow> Nil
      | Some m \<Rightarrow> (case map_of m k of None \<Rightarrow> Nil | Some v \<Rightarrow> v))"

text \<open>\<^verbatim>\<open>delete(raw, k)\<close>: no effect on a \<^verbatim>\<open>nil\<close> map.\<close>

definition delete :: "(string \<times> 'n iface) list option \<Rightarrow> string \<Rightarrow> (string \<times> 'n iface) list option" where
  "delete raw k = map_option (AList.delete k) raw"

text \<open>A map stored in an \<^verbatim>\<open>interface{}\<close>; \<^verbatim>\<open>json.Marshal\<close> writes a \<^verbatim>\<open>nil\<close> map as \<^verbatim>\<open>null\<close>.\<close>

definition map_value :: "(string \<times> 'n iface) list option \<Rightarrow> 'n iface" where
  "map_value raw = (case raw of None \<Rightarrow> Nil | Some m \<Rightarrow> GoMap m)"

subsection \<open>The typed response\<close>

text \<open>
  \<^verbatim>\<open>type toolResponse struct { Current map[string]CurrentState; History []*History }\<close>,
  and \<^verbatim>\<open>ToolResponse\<close> is the same type under a second name. A \<^verbatim>\<open>nil\<close> map and a
  \<^verbatim>\<open>nil\<close> slice are \<open>None\<close>, a \<^verbatim>\<open>nil\<close> pointer in the slice is \<open>None\<close>.
  The types \<^verbatim>\<open>CurrentState\<close> and \<^verbatim>\<open>History\<close> are declared in another file of the
  package: they are the type parameters \<open>'c\<close> and \<open>'h\<close>.
\<close>

record ToolCommand =
  History :: bool
  Limit :: int

record ('c, 'h) ToolResponse =
  Current :: "(string \<times> 'c) list option"
  History :: "'h option list option"

text \<open>The zero value \<^verbatim>\<open>ToolResponse{}\<close>.\<close>

definition zero_ToolResponse :: "('c, 'h) ToolResponse" where
  "zero_ToolResponse = \<lparr>Current = None, History = None\<rparr>"

text \<open>
  Decoding the members of an object into a \<^verbatim>\<open>map[string]CurrentState\<close>, in document
  order; a later member of the same key replaces the earlier one. \<open>dc\<close> decodes one
  \<^verbatim>\<open>CurrentState\<close> and is \<open>None\<close> where \<^verbatim>\<open>encoding/json\<close> reports that the value
  does not fit the type.
\<close>

fun decode_members ::
  "('n json \<Rightarrow> 'c option) \<Rightarrow> (string \<times> 'n json) list \<Rightarrow> (string \<times> 'c) list \<Rightarrow> (string \<times> 'c) list option"
where
  "decode_members dc [] m = Some m"
| "decode_members dc ((k, v) # kvs) m =
     (case dc v of
        None \<Rightarrow> None
      | Some c \<Rightarrow> decode_members dc kvs (AList.update k c m))"

text \<open>The field \<^verbatim>\<open>Current\<close>: \<^verbatim>\<open>null\<close> leaves the map \<^verbatim>\<open>nil\<close>, an object fills it.\<close>

definition Unmarshal_Current ::
  "('n json \<Rightarrow> 'c option) \<Rightarrow> 'n json \<Rightarrow> (string \<times> 'c) list option option"
where
  "Unmarshal_Current dc j =
     (case j of
        JNull \<Rightarrow> Some None
      | JObject kvs \<Rightarrow> map_option Some (decode_members dc kvs [])
      | _ \<Rightarrow> None)"

text \<open>
  One element of \<^verbatim>\<open>[]*History\<close>: \<^verbatim>\<open>null\<close> is the \<^verbatim>\<open>nil\<close> pointer, any other value
  is decoded by \<open>dh\<close> into a new \<^verbatim>\<open>History\<close>.
\<close>

definition decode_pointer :: "('n json \<Rightarrow> 'h option) \<Rightarrow> 'n json \<Rightarrow> 'h option option" where
  "decode_pointer dh v = (case v of JNull \<Rightarrow> Some None | _ \<Rightarrow> map_option Some (dh v))"

fun decode_elements :: "('n json \<Rightarrow> 'h option) \<Rightarrow> 'n json list \<Rightarrow> 'h option list option" where
  "decode_elements dh [] = Some []"
| "decode_elements dh (v # vs) =
     (case decode_pointer dh v of
        None \<Rightarrow> None
      | Some p \<Rightarrow> map_option ((#) p) (decode_elements dh vs))"

text \<open>
  The field \<^verbatim>\<open>History\<close>: \<^verbatim>\<open>null\<close> leaves the slice \<^verbatim>\<open>nil\<close>, an array gives a slice
  of its length (not \<^verbatim>\<open>nil\<close>, also when it is empty), in the order of the array.
\<close>

definition Unmarshal_History ::
  "('n json \<Rightarrow> 'h option) \<Rightarrow> 'n json \<Rightarrow> 'h option list option option"
where
  "Unmarshal_History dh j =
     (case j of
        JNull \<Rightarrow> Some None
      | JArray vs \<Rightarrow> map_option Some (decode_elements dh vs)
      | _ \<Rightarrow> None)"

text \<open>
  The member that a struct field is decoded from. A key that the object lacks leaves the
  field at its zero value, which for a map and for a slice is what \<^verbatim>\<open>null\<close> gives.
\<close>

definition member :: "(string \<times> 'n json) list \<Rightarrow> string \<Rightarrow> 'n json" where
  "member kvs k = (case map_of (rev kvs) k of None \<Rightarrow> JNull | Some v \<Rightarrow> v)"

text \<open>
  \<^verbatim>\<open>json.Unmarshal(b, i)\<close> for \<^verbatim>\<open>i := &toolResponse{}\<close>, on the document that \<^verbatim>\<open>b\<close>
  spells. The fields are tagged \<^verbatim>\<open>json:"current"\<close> and \<^verbatim>\<open>json:"history"\<close>; members
  of other keys are skipped. The only document decoded here is the one marshalled in
  \<^verbatim>\<open>UnmarshalJSON\<close>, whose keys are these two.
\<close>

definition Unmarshal_toolResponse ::
  "('n json \<Rightarrow> 'c option) \<Rightarrow> ('n json \<Rightarrow> 'h option) \<Rightarrow> 'n json \<Rightarrow> json_error + ('c, 'h) ToolResponse"
where
  "Unmarshal_toolResponse dc dh j =
     (case j of
        JNull \<Rightarrow> Inr zero_ToolResponse
      | JObject kvs \<Rightarrow>
          (case Unmarshal_Current dc (member kvs ''current'') of
             None \<Rightarrow> Inl UnmarshalTypeError
           | Some cur \<Rightarrow>
               (case Unmarshal_History dh (member kvs ''history'') of
                  None \<Rightarrow> Inl UnmarshalTypeError
                | Some his \<Rightarrow> Inr \<lparr>Current = cur, History = his\<rparr>))
      | _ \<Rightarrow> Inl UnmarshalTypeError)"

subsection \<open>ToolResponse.UnmarshalJSON\<close>

text \<open>
  \<^verbatim>\<open>func (r *ToolResponse) UnmarshalJSON(b []byte) error\<close>. The result is the error
  (\<open>None\<close> for \<^verbatim>\<open>nil\<close>) and the value of \<^verbatim>\<open>*r\<close> on return; \<open>r\<close> is its value on entry.
  The error of \<^verbatim>\<open>json.Marshal\<close> is dropped by the source (\<^verbatim>\<open>b, _ = json.Marshal(...)\<close>).
\<close>

definition UnmarshalJSON ::
  "(bytes \<Rightarrow> json_error + 'n json) \<Rightarrow> ('n json \<Rightarrow> 'c option) \<Rightarrow> ('n json \<Rightarrow> 'h option) \<Rightarrow>
     bytes \<Rightarrow> ('c, 'h) ToolResponse \<Rightarrow> json_error option \<times> ('c, 'h) ToolResponse"
where
  "UnmarshalJSON parse dc dh b r =
     (case Unmarshal_map parse b of
        Inl err \<Rightarrow> (Some err, r)
      | Inr raw \<Rightarrow>
          (let history = index raw ''history'';
               raw' = delete raw ''history'';
               b' = Marshal (GoMap [(''current'', map_value raw'), (''history'', history)])
           in case Unmarshal_toolResponse dc dh b' of
                Inl err \<Rightarrow> (Some err, r)
              | Inr i \<Rightarrow> (None, i)))"

subsection \<open>ToolCommand.Do\<close>

definition URITool :: string where
  "URITool = ''/api/printer/tool''"

text \<open>The verbs of \<^verbatim>\<open>fmt.Sprintf\<close> that the source uses: \<^verbatim>\<open>%t\<close> and \<^verbatim>\<open>%d\<close>.\<close>

definition fmt_t :: "bool \<Rightarrow> string" where
  "fmt_t b = (if b then ''true'' else ''false'')"

function decimal :: "nat \<Rightarrow> string" where
  "decimal n = (if n < 10 then [''0123456789'' ! n] else decimal (n div 10) @ [''0123456789'' ! (n mod 10)])"
  by pat_completeness auto
termination
  by (relation "measure (\<lambda>n. n)") auto

text \<open>
  \<^verbatim>\<open>Limit\<close> is a Go \<^verbatim>\<open>int\<close>; the source only prints it, so it is an \<open>int\<close> here and
  \<^verbatim>\<open>%d\<close> is defined on every integer.
\<close>

definition fmt_d :: "int \<Rightarrow> string" where
  "fmt_d i = (if i < 0 then ''-'' @ decimal (nat (- i)) else decimal (nat i))"

text \<open>
  \<^verbatim>\<open>json.Unmarshal(b, &r)\<close> for \<^verbatim>\<open>r *ToolResponse\<close>, as \<^verbatim>\<open>ToolCommand.Do\<close> calls it:
  the target is a pointer to the pointer. Text that is not JSON is an error before anything
  is stored. JSON \<^verbatim>\<open>null\<close> sets the pointer \<^verbatim>\<open>r\<close> to \<^verbatim>\<open>nil\<close> and is no error;
  \<^verbatim>\<open>UnmarshalJSON\<close> is not called. Any other value is handed to \<^verbatim>\<open>r.UnmarshalJSON\<close>
  (on a new zero value, should \<^verbatim>\<open>r\<close> be \<^verbatim>\<open>nil\<close>).
\<close>

definition Unmarshal_pointer ::
  "(bytes \<Rightarrow> json_error + 'n json) \<Rightarrow> ('n json \<Rightarrow> 'c option) \<Rightarrow> ('n json \<Rightarrow> 'h option) \<Rightarrow>
     bytes \<Rightarrow> ('c, 'h) ToolResponse option \<Rightarrow> json_error option \<times> ('c, 'h) ToolResponse option"
where
  "Unmarshal_pointer parse dc dh b r =
     (case parse b of
        Inl err \<Rightarrow> (Some err, r)
      | Inr JNull \<Rightarrow> (None, None)
      | Inr _ \<Rightarrow>
          (case UnmarshalJSON parse dc dh b (case r of None \<Rightarrow> zero_ToolResponse | Some x \<Rightarrow> x) of
             (err, x') \<Rightarrow> (err, Some x')))"

text \<open>
  \<^verbatim>\<open>Client.doRequest(method, uri, body)\<close> is declared in another file of the package; the
  spec names it as the transport collaborator. It is the parameter \<open>doRequest\<close>: from the
  state \<open>c\<close> of the client it returns the bytes of the answer or an error, and the next
  state. A body is the JSON document that was encoded into the buffer, \<open>None\<close> for \<^verbatim>\<open>nil\<close>.

  \<^verbatim>\<open>func (cmd *ToolCommand) Do(c *Client) (*ToolResponse, error)\<close>: \<open>Inl err\<close> is
  \<^verbatim>\<open>(nil, err)\<close>, \<open>Inr r\<close> is \<^verbatim>\<open>(r, nil)\<close>, where \<open>r = None\<close> is the \<^verbatim>\<open>nil\<close> pointer.
\<close>

type_synonym ('s, 'e) transport =
  "string \<Rightarrow> string \<Rightarrow> int json option \<Rightarrow> 's \<Rightarrow> ('e error + bytes) \<times> 's"

text \<open>\<^verbatim>\<open>uri := fmt.Sprintf("%s?history=%t&limit=%d", URITool, cmd.History, cmd.Limit)\<close>\<close>

definition uri :: "ToolCommand \<Rightarrow> string" where
  "uri cmd = URITool @ ''?history='' @ fmt_t (ToolCommand.History cmd) @ ''&limit='' @ fmt_d (Limit cmd)"

definition ToolCommand_Do ::
  "(bytes \<Rightarrow> json_error + 'n json) \<Rightarrow> ('n json \<Rightarrow> 'c option) \<Rightarrow> ('n json \<Rightarrow> 'h option) \<Rightarrow>
     ('s, 'e) transport \<Rightarrow> ToolCommand \<Rightarrow> 's \<Rightarrow> ('e error + ('c, 'h) ToolResponse option) \<times> 's"
where
  "ToolCommand_Do parse dc dh doRequest cmd c =
     (case doRequest ''GET'' (uri cmd) None c of
        (Inl err, c') \<Rightarrow> (Inl err, c')
      | (Inr b, c') \<Rightarrow>
          (case Unmarshal_pointer parse dc dh b (Some zero_ToolResponse) of
             (Some err, r) \<Rightarrow> (Inl (JsonError err), c')
           | (None, r) \<Rightarrow> (Inr r, c')))"

subsection \<open>The writing commands\<close>

record TargetCommand =
  Target :: "(string \<times> int) list option"

record OffsetCommand =
  Offsets :: "(string \<times> int) list option"

record ExtrudeCommand =
  Amount :: int

record SelectCommand =
  Tool :: string

record FlowrateCommand =
  Factor :: string

text \<open>
  A Go string is a sequence of bytes, and a caller may put any bytes into \<^verbatim>\<open>Tool\<close>,
  \<^verbatim>\<open>Factor\<close> or the key of a map. \<^verbatim>\<open>encoding/json\<close> writes a string rune by rune and
  writes U+FFFD (the bytes EF BF BD) for every byte at which no UTF-8 sequence starts.

  \<open>rune_width s\<close> is the number of bytes of the UTF-8 sequence at the head of \<open>s\<close>, and
  \<open>0\<close> when there is none (\<^verbatim>\<open>utf8.DecodeRuneInString\<close>: a first byte below 80, or C2..DF
  with one continuation byte, or E0..EF with two, or F0..F4 with three; the second byte
  is further confined after E0, ED, F0 and F4, which shuts out overlong forms, surrogates
  and values above 10FFFF).
\<close>

definition between :: "nat \<Rightarrow> char \<Rightarrow> nat \<Rightarrow> bool" where
  "between lo c hi \<longleftrightarrow> lo \<le> of_char c \<and> of_char c \<le> hi"

definition rune_width :: "string \<Rightarrow> nat" where
  "rune_width s =
     (case s of
        [] \<Rightarrow> 0
      | b0 # bs \<Rightarrow>
          (let x = (of_char b0 :: nat) in
           if x < 0x80 then 1
           else if 0xC2 \<le> x \<and> x \<le> 0xDF then
             (case bs of b1 # _ \<Rightarrow> if between 0x80 b1 0xBF then 2 else 0 | _ \<Rightarrow> 0)
           else if 0xE0 \<le> x \<and> x \<le> 0xEF then
             (case bs of
                b1 # b2 # _ \<Rightarrow>
                  if between (if x = 0xE0 then 0xA0 else 0x80) b1 (if x = 0xED then 0x9F else 0xBF)
                     \<and> between 0x80 b2 0xBF
                  then 3 else 0
              | _ \<Rightarrow> 0)
           else if 0xF0 \<le> x \<and> x \<le> 0xF4 then
             (case bs of
                b1 # b2 # b3 # _ \<Rightarrow>
                  if between (if x = 0xF0 then 0x90 else 0x80) b1 (if x = 0xF4 then 0x8F else 0xBF)
                     \<and> between 0x80 b2 0xBF \<and> between 0x80 b3 0xBF
                  then 4 else 0
              | _ \<Rightarrow> 0)
           else 0))"

text \<open>The string that \<^verbatim>\<open>encoding/json\<close> writes for a Go string.\<close>

function ToValidUTF8 :: "string \<Rightarrow> string" where
  "ToValidUTF8 s =
     (if s = [] then []
      else if rune_width s = 0 then [CHR 0xEF, CHR 0xBF, CHR 0xBD] @ ToValidUTF8 (tl s)
      else take (rune_width s) s @ ToValidUTF8 (drop (rune_width s) s))"
  by pat_completeness auto
termination
  by (relation "measure length") (auto simp add: neq_Nil_conv)

text \<open>
  \<^verbatim>\<open>encoding/json\<close> on a \<^verbatim>\<open>map[string]int\<close>: \<^verbatim>\<open>null\<close> for the \<^verbatim>\<open>nil\<close> map, else an
  object with one member for each entry, in the order of the sorted keys; the keys are
  sorted as they are in the map and written as strings are written.
\<close>

definition Marshal_map_int :: "(string \<times> int) list option \<Rightarrow> int json" where
  "Marshal_map_int m =
     (case m of
        None \<Rightarrow> JNull
      | Some kvs \<Rightarrow>
          JObject (map (\<lambda>kv. (ToValidUTF8 (fst kv), JNumber (snd kv)))
                     (sort_key fst (AList.clearjunk kvs))))"

text \<open>
  The values that the commands hold, and a struct as \<^verbatim>\<open>encoding/json\<close> sees it: a list
  of fields in the order of their declaration, each either a field with its \<^verbatim>\<open>json\<close> tag or
  an embedded struct without a tag.
\<close>

datatype govalue = StringValue string | IntValue int | MapValue "(string \<times> int) list option"

datatype gofield = Tagged string govalue | Embedded "gofield list"

definition Marshal_value :: "govalue \<Rightarrow> int json" where
  "Marshal_value v =
     (case v of
        StringValue s \<Rightarrow> JString (ToValidUTF8 s)
      | IntValue i \<Rightarrow> JNumber i
      | MapValue m \<Rightarrow> Marshal_map_int m)"

text \<open>
  The fields of a struct with the depth of their embedding. \<^verbatim>\<open>encoding/json\<close> writes the
  fields of an embedded struct as members of the object of the outer struct. Of the fields
  of one name it writes the least deeply embedded one, and none of them when there are
  several at that depth; the members keep the order of the declarations.
\<close>

primrec promoted :: "gofield \<Rightarrow> nat \<Rightarrow> (string \<times> nat \<times> govalue) list" where
  "promoted (Tagged name v) d = [(name, d, v)]"
| "promoted (Embedded fs) d = concat (map (\<lambda>f. promoted f (Suc d)) fs)"

definition dominant :: "(string \<times> nat \<times> govalue) list \<Rightarrow> string \<times> nat \<times> govalue \<Rightarrow> bool" where
  "dominant all f \<longleftrightarrow>
     list_all (\<lambda>g. fst g = fst f \<longrightarrow> fst (snd f) \<le> fst (snd g)) all \<and>
     length (filter (\<lambda>g. fst g = fst f \<and> fst (snd g) = fst (snd f)) all) = 1"

definition Marshal_struct :: "gofield list \<Rightarrow> int json" where
  "Marshal_struct fs =
     (let all = concat (map (\<lambda>f. promoted f 0) fs)
      in JObject (map (\<lambda>f. (fst f, Marshal_value (snd (snd f)))) (filter (dominant all) all)))"

text \<open>The declarations of the five commands: each has one field, with its tag.\<close>

definition TargetCommand_fields :: "TargetCommand \<Rightarrow> gofield list" where
  "TargetCommand_fields cmd = [Tagged ''target'' (MapValue (Target cmd))]"

definition OffsetCommand_fields :: "OffsetCommand \<Rightarrow> gofield list" where
  "OffsetCommand_fields cmd = [Tagged ''offsets'' (MapValue (Offsets cmd))]"

definition ExtrudeCommand_fields :: "ExtrudeCommand \<Rightarrow> gofield list" where
  "ExtrudeCommand_fields cmd = [Tagged ''amount'' (IntValue (Amount cmd))]"

definition SelectCommand_fields :: "SelectCommand \<Rightarrow> gofield list" where
  "SelectCommand_fields cmd = [Tagged ''tool'' (StringValue (Tool cmd))]"

definition FlowrateCommand_fields :: "FlowrateCommand \<Rightarrow> gofield list" where
  "FlowrateCommand_fields cmd = [Tagged ''factor'' (StringValue (Factor cmd))]"

text \<open>
  Each \<^verbatim>\<open>encode\<close> writes, through \<^verbatim>\<open>json.NewEncoder(w).Encode\<close>, the anonymous struct
  \<^verbatim>\<open>struct { Command string `json:"command"`; TargetCommand }\<close> (with its own command
  type embedded) whose \<^verbatim>\<open>Command\<close> is the literal of the variant. The result is the
  document written into the buffer; for these field types (string, int, map of int) the
  encoder has no error to return.
\<close>

definition TargetCommand_encode :: "TargetCommand \<Rightarrow> 'e error + int json" where
  "TargetCommand_encode cmd =
     Inr (Marshal_struct [Tagged ''command'' (StringValue ''target''),
                          Embedded (TargetCommand_fields cmd)])"

definition OffsetCommand_encode :: "OffsetCommand \<Rightarrow> 'e error + int json" where
  "OffsetCommand_encode cmd =
     Inr (Marshal_struct [Tagged ''command'' (StringValue ''offset''),
                          Embedded (OffsetCommand_fields cmd)])"

definition ExtrudeCommand_encode :: "ExtrudeCommand \<Rightarrow> 'e error + int json" where
  "ExtrudeCommand_encode cmd =
     Inr (Marshal_struct [Tagged ''command'' (StringValue ''extrude''),
                          Embedded (ExtrudeCommand_fields cmd)])"

definition SelectCommand_encode :: "SelectCommand \<Rightarrow> 'e error + int json" where
  "SelectCommand_encode cmd =
     Inr (Marshal_struct [Tagged ''command'' (StringValue ''select''),
                          Embedded (SelectCommand_fields cmd)])"

definition FlowrateCommand_encode :: "FlowrateCommand \<Rightarrow> 'e error + int json" where
  "FlowrateCommand_encode cmd =
     Inr (Marshal_struct [Tagged ''command'' (StringValue ''flowrate''),
                          Embedded (FlowrateCommand_fields cmd)])"

text \<open>
  The five \<^verbatim>\<open>Do\<close> of the source have the same body, line for line: encode into a new
  buffer and return the error of that without any request, else call
  \<^verbatim>\<open>c.doRequest("POST", URITool, b)\<close> and return its error (\<open>None\<close> for \<^verbatim>\<open>nil\<close>).
  The body is \<open>post\<close>; each \<^verbatim>\<open>Do\<close> applies it to its own \<^verbatim>\<open>encode\<close>.
\<close>

definition post :: "('s, 'e) transport \<Rightarrow> 'e error + int json \<Rightarrow> 's \<Rightarrow> 'e error option \<times> 's" where
  "post doRequest encoded c =
     (case encoded of
        Inl err \<Rightarrow> (Some err, c)
      | Inr b \<Rightarrow>
          (case doRequest ''POST'' URITool (Some b) c of
             (Inl err, c') \<Rightarrow> (Some err, c')
           | (Inr _, c') \<Rightarrow> (None, c')))"

definition TargetCommand_Do :: "('s, 'e) transport \<Rightarrow> TargetCommand \<Rightarrow> 's \<Rightarrow> 'e error option \<times> 's" where
  "TargetCommand_Do doRequest cmd c = post doRequest (TargetCommand_encode cmd) c"

definition OffsetCommand_Do :: "('s, 'e) transport \<Rightarrow> OffsetCommand \<Rightarrow> 's \<Rightarrow> 'e error option \<times> 's" where
  "OffsetCommand_Do doRequest cmd c = post doRequest (OffsetCommand_encode cmd) c"

definition ExtrudeCommand_Do :: "('s, 'e) transport \<Rightarrow> ExtrudeCommand \<Rightarrow> 's \<Rightarrow> 'e error option \<times> 's" where
  "ExtrudeCommand_Do doRequest cmd c = post doRequest (ExtrudeCommand_encode cmd) c"

definition SelectCommand_Do :: "('s, 'e) transport \<Rightarrow> SelectCommand \<Rightarrow> 's \<Rightarrow> 'e error option \<times> 's" where
  "SelectCommand_Do doRequest cmd c = post doRequest (SelectCommand_encode cmd) c"

definition FlowrateCommand_Do :: "('s, 'e) transport \<Rightarrow> FlowrateCommand \<Rightarrow> 's \<Rightarrow> 'e error option \<times> 's" where
  "FlowrateCommand_Do doRequest cmd c = post doRequest (FlowrateCommand_encode cmd) c"

subsection \<open>The tool state of the spec\<close>

text \<open>
  Modelled from the spec: the type \<^verbatim>\<open>CurrentState\<close> is declared outside tool.go. The spec
  gives a tool state three numeric fields, "actual temperature, target temperature,
  temperature offset", written \<^verbatim>\<open>{actual, target, offset}\<close> on the wire, and says that
  "numeric fields absent from a given tool entry deserialize to a zero value, not an
  error". The decoder is that of \<^verbatim>\<open>encoding/json\<close> for a struct of three numbers: an
  object gives each field the number of its key, a key that is absent or \<^verbatim>\<open>null\<close>
  leaves the zero, a value of another kind is an \<^verbatim>\<open>UnmarshalTypeError\<close>; \<^verbatim>\<open>null\<close> in
  place of the object leaves the zero struct; anything else is an \<^verbatim>\<open>UnmarshalTypeError\<close>.
\<close>

record 'n CurrentState =
  actual :: 'n
  target :: 'n
  offset :: 'n

text \<open>
  Modelled from the spec: one numeric field of a tool entry, which the declaration of
  \<^verbatim>\<open>CurrentState\<close> (not in tool.go) would tag with its key. The key is compared as it is
  written, and of a repeated key the last member counts.
\<close>

definition number_field :: "(string \<times> ('n::zero) json) list \<Rightarrow> string \<Rightarrow> 'n option" where
  "number_field kvs k =
     (case map_of (rev kvs) k of
        None \<Rightarrow> Some 0
      | Some JNull \<Rightarrow> Some 0
      | Some (JNumber x) \<Rightarrow> Some x
      | Some _ \<Rightarrow> None)"

text \<open>
  Modelled from the spec: the decoding of one \<^verbatim>\<open>CurrentState\<close>, whose declaration is not
  in tool.go, as described above; \<open>None\<close> is the \<^verbatim>\<open>UnmarshalTypeError\<close>.
\<close>

definition Unmarshal_CurrentState :: "('n::zero) json \<Rightarrow> 'n CurrentState option" where
  "Unmarshal_CurrentState j =
     (case j of
        JNull \<Rightarrow> Some \<lparr>actual = 0, target = 0, offset = 0\<rparr>
      | JObject kvs \<Rightarrow>
          (case number_field kvs ''actual'' of
             None \<Rightarrow> None
           | Some a \<Rightarrow>
               (case number_field kvs ''target'' of
                  None \<Rightarrow> None
                | Some t \<Rightarrow>
                    (case number_field kvs ''offset'' of
                       None \<Rightarrow> None
                     | Some off \<Rightarrow> Some \<lparr>actual = a, target = t, offset = off\<rparr>)))
      | _ \<Rightarrow> None)"

text \<open>
  Modelled from the spec: the wire form \<^verbatim>\<open>{actual, target, offset}\<close> of a tool state, for
  the way back from a typed response to a payload. tool.go encodes no tool state.
\<close>

definition Marshal_CurrentState :: "'n CurrentState \<Rightarrow> 'n json" where
  "Marshal_CurrentState s =
     JObject [(''actual'', JNumber (actual s)), (''target'', JNumber (target s)),
              (''offset'', JNumber (offset s))]"

subsection \<open>Notions for the statements\<close>

text \<open>
  What the second decoding reads in place of a value \<open>v\<close> of the payload: \<open>v\<close> decoded
  into an \<^verbatim>\<open>interface{}\<close> by the first \<^verbatim>\<open>json.Unmarshal\<close> and written again by
  \<^verbatim>\<open>json.Marshal\<close>.
\<close>

definition reencode :: "'n json \<Rightarrow> 'n json" where
  "reencode v = Marshal (Unmarshal_iface v)"

text \<open>
  The JSON value that a document denotes: an object denotes the map from its keys to the
  values of its members, where the last member of a repeated key counts and the order of
  the members does not.
\<close>

datatype 'n jvalue =
    VNull
  | VBool bool
  | VNumber 'n
  | VString string
  | VArray "'n jvalue list"
  | VObject "string \<Rightarrow> 'n jvalue option"

primrec meaning :: "'n json \<Rightarrow> 'n jvalue" where
  "meaning JNull = VNull"
| "meaning (JBool b) = VBool b"
| "meaning (JNumber x) = VNumber x"
| "meaning (JString s) = VString s"
| "meaning (JArray vs) = VArray (map meaning vs)"
| "meaning (JObject kvs) = VObject (map_of (rev (map (map_prod id meaning) kvs)))"

text \<open>
  A decoder that keeps of a document the JSON value it denotes, to run the functions on
  in the place of the decoder of a \<^verbatim>\<open>History\<close>, which is declared outside tool.go.
\<close>

definition value_of :: "'n json \<Rightarrow> 'n jvalue option" where
  "value_of v = Some (meaning v)"

text \<open>
  Reading a decimal numeral: the number that a string of digits denotes, most significant
  digit first.
\<close>

definition is_digit :: "char \<Rightarrow> bool" where
  "is_digit c \<longleftrightarrow> c \<in> set ''0123456789''"

definition digit_value :: "char \<Rightarrow> nat" where
  "digit_value c = of_char c - of_char CHR ''0''"

definition digits_value :: "string \<Rightarrow> nat" where
  "digits_value s = foldl (\<lambda>a c. 10 * a + digit_value c) 0 s"

text \<open>
  The tool entries of a payload: its members without those of the key \<^verbatim>\<open>history\<close>,
  each key once with its last value, by sorted key.
\<close>

definition entries :: "(string \<times> 'n json) list \<Rightarrow> (string \<times> 'n json) list" where
  "entries kvs = sort_key fst (AList.delete ''history'' (AList.clearjunk (rev kvs)))"

text \<open>
  A payload that the typed decoding accepts: every tool entry decodes as a
  \<^verbatim>\<open>CurrentState\<close> and the member \<^verbatim>\<open>history\<close>, if there is one, as a \<^verbatim>\<open>[]*History\<close>.
\<close>

definition decodable ::
  "('n json \<Rightarrow> 'c option) \<Rightarrow> ('n json \<Rightarrow> 'h option) \<Rightarrow> (string \<times> 'n json) list \<Rightarrow> bool"
where
  "decodable dc dh kvs \<longleftrightarrow>
     list_all (\<lambda>kv. dc (reencode (snd kv)) \<noteq> None) (entries kvs) \<and>
     Unmarshal_History dh (reencode (member kvs ''history'')) \<noteq> None"

text \<open>The elements of a slice; the \<^verbatim>\<open>nil\<close> slice has none.\<close>

definition elements :: "'a list option \<Rightarrow> 'a list" where
  "elements s = (case s of None \<Rightarrow> [] | Some xs \<Rightarrow> xs)"

text \<open>
  Modelled from the spec: the flat form of a typed response, which no function of the
  source computes. The spec's words are "re-serializing the normalized structure back to
  flat form (current keys merged with a \<^verbatim>\<open>history\<close> key)". \<open>ec\<close> and \<open>eh\<close> write a
  \<^verbatim>\<open>CurrentState\<close> and a \<^verbatim>\<open>History\<close>, a \<^verbatim>\<open>nil\<close> pointer is \<^verbatim>\<open>null\<close>, and the
  \<^verbatim>\<open>history\<close> key holds the array of the elements, the empty array when there are none.
\<close>

definition flatten ::
  "('c \<Rightarrow> 'n json) \<Rightarrow> ('h \<Rightarrow> 'n json) \<Rightarrow> ('c, 'h) ToolResponse \<Rightarrow> 'n json"
where
  "flatten ec eh r =
     JObject (map (map_prod id ec) (elements (Current r))
              @ [(''history'', JArray (map (case_option JNull eh) (elements (History r))))])"


text \<open>
  Modelled from the spec: a tool entry as the spec describes it on the wire, an object in
  which each of the keys
  \<^verbatim>\<open>actual\<close>, \<^verbatim>\<open>target\<close> and \<^verbatim>\<open>offset\<close> is a number or is absent.
\<close>

definition tool_entry :: "'n json \<Rightarrow> bool" where
  "tool_entry v =
     (case v of
        JObject fs \<Rightarrow>
          list_all (\<lambda>k. case map_of (rev fs) k of
                           None \<Rightarrow> True
                         | Some (JNumber x) \<Rightarrow> True
                         | Some _ \<Rightarrow> False)
            [''actual'', ''target'', ''offset'']
      | _ \<Rightarrow> False)"

text \<open>
  A scanner given by a table, to run the functions on: a text of the table spells its
  document, any other text is a syntax error.
\<close>

definition table_parse :: "(bytes \<times> 'n json) list \<Rightarrow> bytes \<Rightarrow> json_error + 'n json" where
  "table_parse table b = (case map_of table b of None \<Rightarrow> Inl SyntaxError | Some j \<Rightarrow> Inr j)"

subsection \<open>Observing the transport\<close>

text \<open>
  To count the round trips of a \<^verbatim>\<open>Do\<close>, a transport is run beside a log: \<open>logged\<close> does
  what the transport does and appends the request to the log.
\<close>

type_synonym request = "string \<times> string \<times> int json option"

definition logged :: "('s, 'e) transport \<Rightarrow> ('s \<times> request list, 'e) transport" where
  "logged doRequest method path body cl =
     (case doRequest method path body (fst cl) of
        (res, c') \<Rightarrow> (res, (c', snd cl @ [(method, path, body)])))"

text \<open>Two transports to run the commands on: one answers every request with the same
  bytes, one fails every request with the same error. Their client has no state.\<close>

definition answering :: "bytes \<Rightarrow> (unit, 'e) transport" where
  "answering b method path body c = (Inr b, c)"

definition failing :: "'e error \<Rightarrow> (unit, 'e) transport" where
  "failing err method path body c = (Inl err, c)"

text \<open>
  A payload to run the functions on, as text and as the document that the text spells:
  one tool and one history entry.
\<close>

definition sample_text :: bytes where
  "sample_text =
     ''{\"tool0\":{\"actual\":200,\"target\":210,\"offset\":0},\"history\":[{\"actual\":199,\"target\":210,\"timestamp\":1000}]}''"

definition sample_members :: "(string \<times> int json) list" where
  "sample_members =
     [(''tool0'', JObject [(''actual'', JNumber 200), (''target'', JNumber 210), (''offset'', JNumber 0)]),
      (''history'', JArray [JObject [(''actual'', JNumber 199), (''target'', JNumber 210),
                                     (''timestamp'', JNumber 1000)]])]"

section \<open>Proofs\<close>

declare decimal.simps [simp del]

declare ToValidUTF8.simps [simp del]


subsection \<open>Lists of members\<close>

lemma update_fresh: "k \<notin> fst ` set m \<Longrightarrow> AList.update k c m = m @ [(k, c)]"
  by (induction m) auto

lemma decode_members_distinct:
  "distinct (map fst xs) \<Longrightarrow> fst ` set xs \<inter> fst ` set m = {} \<Longrightarrow>
   decode_members dc xs m =
     (if list_all (\<lambda>kv. dc (snd kv) \<noteq> None) xs
      then Some (m @ map (\<lambda>kv. (fst kv, the (dc (snd kv)))) xs) else None)"
proof (induction xs arbitrary: m)
  case Nil
  then show ?case by simp
next
  case (Cons kv xs)
  obtain k v where kv: "kv = (k, v)" by (cases kv)
  show ?case
  proof (cases "dc v")
    case None
    then show ?thesis by (simp add: kv)
  next
    case (Some c)
    have fresh: "k \<notin> fst ` set m" using Cons.prems(2) by (auto simp: kv)
    have d: "distinct (map fst xs)" using Cons.prems(1) by simp
    have disj: "fst ` set xs \<inter> fst ` set (m @ [(k, c)]) = {}"
      using Cons.prems by (auto simp: kv)
    show ?thesis
      unfolding kv decode_members.simps Some option.case update_fresh [OF fresh] Cons.IH [OF d disj]
      using Some by simp
  qed
qed

lemma insort_key_map_keys:
  assumes "\<And>x. fst (g x) = fst x"
  shows "insort_key fst (g x) (map g xs) = map g (insort_key fst x xs)"
  by (induction xs) (simp_all add: assms)

lemma sort_key_map_keys:
  assumes "\<And>x. fst (g x) = fst x"
  shows "sort_key fst (map g xs) = map g (sort_key fst xs)"
  by (induction xs) (simp_all add: insort_key_map_keys [OF assms])

lemma fst_map_prod_id: "fst (map_prod id f kv) = fst kv"
  by (cases kv) simp

lemma raw_members:
  "AList.delete ''history'' (AList.clearjunk (rev (map (map_prod id f) kvs))) =
   map (map_prod id f) (AList.delete ''history'' (AList.clearjunk (rev kvs)))"
  unfolding rev_map clearjunk_map [of "map_prod id f", OF fst_map_prod_id]
    delete_map [of "map_prod id f", OF fst_map_prod_id] ..

lemma map_prod_reencode:
  "map (map_prod id Marshal) (map (map_prod id Unmarshal_iface) xs) = map (map_prod id reencode) xs"
  by (induction xs) (auto simp: reencode_def)

lemma marshal_entries:
  "sort_key fst (AList.clearjunk (map (map_prod id Marshal)
      (AList.delete ''history'' (AList.clearjunk (rev (map (map_prod id Unmarshal_iface) kvs)))))) =
   map (map_prod id reencode) (entries kvs)"
proof -
  let ?E = "AList.delete ''history'' (AList.clearjunk (rev kvs))"
  have d: "distinct (map fst ?E)"
    by (simp add: distinct_delete)
  have "map fst (map (map_prod id reencode) ?E) = map fst ?E"
    by (induction ?E) auto
  with d have d': "distinct (map fst (map (map_prod id reencode) ?E))"
    by simp
  show ?thesis
    unfolding raw_members map_prod_reencode distinct_clearjunk_id [OF d'] entries_def
    by (rule sort_key_map_keys [OF fst_map_prod_id])
qed

lemma map_of_map_prod: "map_of (map (map_prod id f) xs) k = map_option f (map_of xs k)"
  by (induction xs) auto

lemma marshal_history:
  "Marshal (index (Some (AList.clearjunk (rev (map (map_prod id Unmarshal_iface) kvs)))) ''history'') =
   reencode (member kvs ''history'')"
  by (simp add: index_def member_def map_of_clearjunk rev_map map_of_map_prod reencode_def
      split: option.split)

lemma intermediate:
  "Marshal (GoMap [(''current'', GoMap m), (''history'', h)]) =
   JObject [(''current'', Marshal (GoMap m)), (''history'', Marshal h)]"
  by (simp add: AList.clearjunk.simps AList.delete_eq)

lemma UnmarshalJSON_object:
  assumes "parse b = Inr (JObject kvs)"
  shows "UnmarshalJSON parse dc dh b r =
     (case decode_members dc (map (map_prod id reencode) (entries kvs)) [] of
        None \<Rightarrow> (Some UnmarshalTypeError, r)
      | Some m \<Rightarrow>
          (case Unmarshal_History dh (reencode (member kvs ''history'')) of
             None \<Rightarrow> (Some UnmarshalTypeError, r)
           | Some h \<Rightarrow> (None, \<lparr>Current = Some m, History = h\<rparr>)))"
proof -
  let ?m = "AList.clearjunk (rev (map (map_prod id Unmarshal_iface) kvs))"
  have raw: "Unmarshal_map parse b = Inr (Some ?m)"
    by (simp add: Unmarshal_map_def assms)
  have cur: "member [(''current'', c), (''history'', h)] ''current'' = c" for c h :: "'a json"
    by (simp add: member_def)
  have his: "member [(''current'', c), (''history'', h)] ''history'' = h" for c h :: "'a json"
    by (simp add: member_def)
  show ?thesis
    unfolding UnmarshalJSON_def raw Let_def
    by (auto simp add: delete_def map_value_def intermediate Unmarshal_toolResponse_def cur his
        marshal_history Unmarshal_Current_def marshal_entries
        split: option.split)
qed


subsection \<open>The tool entries of a payload\<close>

lemma map_of_sort_key:
  assumes "distinct (map fst xs)"
  shows "map_of (sort_key fst xs) = map_of xs"
proof -
  have "distinct (map fst (sort_key fst xs))"
    using assms by (simp add: distinct_map)
  then show ?thesis
    using assms by (simp add: map_of_inject_set)
qed

lemma distinct_entries: "distinct (map fst (entries kvs))"
proof -
  have "distinct (map fst (AList.delete ''history'' (AList.clearjunk (rev kvs))))"
    by (simp add: distinct_delete)
  then show ?thesis
    by (simp add: entries_def distinct_map)
qed

lemma sorted_entries: "sorted (map fst (entries kvs))"
  by (simp add: entries_def)

lemma map_of_entries:
  "map_of (entries kvs) k = (if k = ''history'' then None else map_of (rev kvs) k)"
proof -
  have "distinct (map fst (AList.delete ''history'' (AList.clearjunk (rev kvs))))"
    by (simp add: distinct_delete)
  then show ?thesis
    by (simp add: entries_def map_of_sort_key delete_conv' map_of_clearjunk)
qed

lemma keys_entries: "fst ` set (entries kvs) = fst ` set kvs - {''history''}"
proof -
  have "fst ` set (AList.delete k al) = fst ` set al - {k}" for k :: string and al :: "(string \<times> 'a json) list"
    by (auto simp: AList.delete_eq image_iff)
  then show ?thesis
    by (simp add: entries_def dom_clearjunk)
qed

lemma set_clearjunk_subset: "set (AList.clearjunk al) \<subseteq> set al"
proof (induction al rule: AList.clearjunk.induct)
  case 1
  then show ?case by simp
next
  case (2 p ps)
  have "set (AList.delete (fst p) ps) \<subseteq> set ps"
    by (auto simp: AList.delete_eq)
  with 2 show ?case by auto
qed

lemma set_entries_subset: "set (entries kvs) \<subseteq> set kvs"
proof -
  have "set (AList.delete ''history'' (AList.clearjunk (rev kvs))) \<subseteq> set (AList.clearjunk (rev kvs))"
    by (auto simp: AList.delete_eq)
  also have "\<dots> \<subseteq> set (rev kvs)"
    by (rule set_clearjunk_subset)
  finally show ?thesis
    by (simp add: entries_def)
qed

lemma entries_of_distinct:
  assumes "distinct (map fst kvs)"
  shows "set (entries kvs) = {kv \<in> set kvs. fst kv \<noteq> ''history''}"
    and "length (entries kvs) = length (filter (\<lambda>kv. fst kv \<noteq> ''history'') kvs)"
proof -
  have d: "distinct (map fst (rev kvs))"
    using assms by (simp add: rev_map [symmetric])
  have e: "entries kvs = sort_key fst (filter (\<lambda>kv. fst kv \<noteq> ''history'') (rev kvs))"
    unfolding entries_def distinct_clearjunk_id [OF d] AList.delete_eq
    by (simp add: case_prod_beta' eq_commute)
  show "set (entries kvs) = {kv \<in> set kvs. fst kv \<noteq> ''history''}"
    by (auto simp: e)
  show "length (entries kvs) = length (filter (\<lambda>kv. fst kv \<noteq> ''history'') kvs)"
    by (simp add: e rev_filter [symmetric])
qed

lemma member_absent: "k \<notin> fst ` set kvs \<Longrightarrow> member kvs k = JNull"
  by (simp add: member_def map_of_eq_None_iff [THEN iffD2])

lemma member_of_distinct:
  "distinct (map fst kvs) \<Longrightarrow> (k, v) \<in> set kvs \<Longrightarrow> member kvs k = v"
  by (simp add: member_def rev_map [symmetric])

subsection \<open>The result of UnmarshalJSON on an object\<close>

lemma decode_entries:
  "decode_members dc (map (map_prod id reencode) (entries kvs)) [] =
     (if list_all (\<lambda>kv. dc (reencode (snd kv)) \<noteq> None) (entries kvs)
      then Some (map (\<lambda>kv. (fst kv, the (dc (reencode (snd kv))))) (entries kvs)) else None)"
proof -
  have keys: "map fst (map (map_prod id reencode) (entries kvs)) = map fst (entries kvs)"
    by (induction "entries kvs") auto
  have d: "distinct (map fst (map (map_prod id reencode) (entries kvs)))"
    unfolding keys by (rule distinct_entries)
  show ?thesis
    unfolding decode_members_distinct [OF d, of "[]" dc, simplified]
    by (simp add: list_all_iff comp_def)
qed

lemma UnmarshalJSON_decodable:
  assumes "parse b = Inr (JObject kvs)"
  shows "UnmarshalJSON parse dc dh b r =
     (if decodable dc dh kvs
      then (None, \<lparr>Current = Some (map (\<lambda>kv. (fst kv, the (dc (reencode (snd kv))))) (entries kvs)),
                   History = the (Unmarshal_History dh (reencode (member kvs ''history'')))\<rparr>)
      else (Some UnmarshalTypeError, r))"
  using UnmarshalJSON_object [of parse b kvs dc dh r] assms
  by (auto simp add: decode_entries decodable_def split: option.split)

lemma map_of_map_values:
  "map_of (map (\<lambda>kv. (fst kv, g (snd kv))) xs) k = map_option g (map_of xs k)"
  by (induction xs) auto

lemma decode_elements_nth:
  "decode_elements dh ws = Some hs \<Longrightarrow>
   length hs = length ws \<and> (\<forall>i < length ws. decode_pointer dh (ws ! i) = Some (hs ! i))"
proof (induction ws arbitrary: hs)
  case Nil
  then show ?case by simp
next
  case (Cons w ws)
  from Cons.prems obtain p ps where p: "decode_pointer dh w = Some p"
    and ps: "decode_elements dh ws = Some ps" and hs: "hs = p # ps"
    by (auto split: option.splits)
  from Cons.IH [OF ps] show ?case
    by (auto simp add: hs p nth_Cons split: nat.split)
qed

lemma reencode_JArray: "reencode (JArray vs) = JArray (map reencode vs)"
  unfolding reencode_def by (simp add: comp_def)

lemma history_of_array:
  assumes "Unmarshal_History dh (reencode (JArray vs)) = Some h"
  shows "length (elements h) = length vs \<and>
         (\<forall>i < length vs. decode_pointer dh (reencode (vs ! i)) = Some (elements h ! i))"
proof -
  from assms obtain hs where hs: "decode_elements dh (map reencode vs) = Some hs" and h: "h = Some hs"
    by (auto simp add: Unmarshal_History_def reencode_JArray)
  from decode_elements_nth [OF hs] show ?thesis
    by (simp add: h elements_def)
qed

lemma history_of_absent:
  "''history'' \<notin> fst ` set kvs \<Longrightarrow> Unmarshal_History dh (reencode (member kvs ''history'')) = Some None"
  by (simp add: member_absent reencode_def Unmarshal_History_def)


subsection \<open>Re-encoded values\<close>

lemma distinct_keys_sort_key:
  "distinct (map fst xs) \<Longrightarrow> distinct (map fst (sort_key fst xs))"
  by (simp add: distinct_map)

lemma keys_map_prod: "map fst (map (map_prod id f) xs) = map fst xs"
  by (induction xs) auto

lemma reencode_JObject:
  "reencode (JObject fs) =
     JObject (sort_key fst (map (map_prod id reencode) (AList.clearjunk (rev fs))))"
proof -
  let ?E = "AList.clearjunk (rev fs)"
  have raw: "AList.clearjunk (rev (map (map_prod id Unmarshal_iface) fs)) = map (map_prod id Unmarshal_iface) ?E"
    unfolding rev_map clearjunk_map [of "map_prod id Unmarshal_iface", OF fst_map_prod_id] ..
  have d: "distinct (map fst (map (map_prod id reencode) ?E))"
    by (simp only: keys_map_prod distinct_clearjunk)
  show ?thesis
    unfolding reencode_def Unmarshal_iface.simps Marshal.simps raw map_prod_reencode
    by (simp only: distinct_clearjunk_id [OF d] reencode_def [symmetric])
qed

lemma map_of_rev_distinct:
  assumes "distinct (map fst xs)"
  shows "map_of (rev xs) = map_of xs"
proof -
  have "distinct (map fst (rev xs))"
    using assms by (simp add: rev_map [symmetric])
  then show ?thesis
    using assms by (simp add: map_of_inject_set)
qed

lemma map_of_reencoded:
  assumes "reencode (JObject fs) = JObject fs'"
  shows "map_of (rev fs') k = map_option reencode (map_of (rev fs) k)"
proof -
  let ?M = "map (map_prod id reencode) (AList.clearjunk (rev fs))"
  have fs': "fs' = sort_key fst ?M"
    using assms by (simp add: reencode_JObject)
  have d: "distinct (map fst ?M)"
    by (simp only: keys_map_prod distinct_clearjunk)
  from d have "distinct (map fst (sort_key fst ?M))"
    by (rule distinct_keys_sort_key)
  then have "map_of (rev fs') = map_of (sort_key fst ?M)"
    unfolding fs' by (rule map_of_rev_distinct)
  then show ?thesis
    by (simp only: map_of_sort_key [OF d] map_of_map_prod map_of_clearjunk)
qed

lemma number_field_reencoded:
  assumes "reencode (JObject fs) = JObject fs'"
  shows "number_field fs' k = number_field fs k"
proof (cases "map_of (rev fs) k")
  case None
  then show ?thesis
    by (simp add: number_field_def map_of_reencoded [OF assms])
next
  case (Some v)
  then show ?thesis
    by (cases v) (simp_all add: number_field_def map_of_reencoded [OF assms] reencode_def)
qed

lemma Unmarshal_CurrentState_reencode:
  "Unmarshal_CurrentState (reencode v) = Unmarshal_CurrentState v"
proof (cases v)
  case (JObject fs)
  obtain fs' where fs': "reencode (JObject fs) = JObject fs'"
    by (simp add: reencode_JObject)
  show ?thesis
    unfolding JObject fs' Unmarshal_CurrentState_def json.case number_field_reencoded [OF fs'] ..
qed (simp_all add: reencode_def Unmarshal_CurrentState_def)

lemma decoded_field:
  assumes "number_field fs k = Some y"
  shows "(\<forall>x. map_of (rev fs) k = Some (JNumber x) \<longrightarrow> y = x) \<and> (map_of (rev fs) k = None \<longrightarrow> y = 0)"
  using assms by (auto simp add: number_field_def)

lemma decoded_fields:
  assumes "Unmarshal_CurrentState (JObject fs) = Some c"
  shows "number_field fs ''actual'' = Some (actual c) \<and> number_field fs ''target'' = Some (target c)
       \<and> number_field fs ''offset'' = Some (offset c)"
  using assms by (auto simp add: Unmarshal_CurrentState_def split: option.splits)

lemma tool_entry_decodes:
  assumes "tool_entry v"
  shows "Unmarshal_CurrentState v \<noteq> None"
proof -
  from assms obtain fs where v: "v = JObject fs"
    by (cases v) (simp_all add: tool_entry_def)
  have nf: "\<exists>y. number_field fs k = Some y"
    if "case map_of (rev fs) k of None \<Rightarrow> True | Some (JNumber x) \<Rightarrow> True | Some _ \<Rightarrow> False" for k
    using that by (auto simp add: number_field_def split: option.splits json.splits)
  from assms obtain a t off where "number_field fs ''actual'' = Some a"
    and "number_field fs ''target'' = Some t" and "number_field fs ''offset'' = Some off"
    using nf [of "''actual''"] nf [of "''target''"] nf [of "''offset''"]
    by (auto simp add: v tool_entry_def)
  then show ?thesis
    by (simp add: v Unmarshal_CurrentState_def)
qed

lemma meaning_reencode: "meaning (reencode v) = meaning v"
proof (induction v)
  case (JArray vs)
  then have "map meaning (map reencode vs) = map meaning vs"
    by (induction vs) simp_all
  then show ?case
    by (simp only: reencode_JArray meaning.simps)
next
  case (JObject fs)
  obtain fs' where fs': "reencode (JObject fs) = JObject fs'"
    by (simp add: reencode_JObject)
  have "map_of (rev (map (map_prod id meaning) fs')) k = map_of (rev (map (map_prod id meaning) fs)) k" for k
  proof (cases "map_of (rev fs) k")
    case None
    then show ?thesis
      by (simp add: rev_map map_of_map_prod map_of_reencoded [OF fs'])
  next
    case (Some v)
    then have "(k, v) \<in> set fs"
      using map_of_SomeD [of "rev fs" k v] by simp
    then have "meaning (reencode v) = meaning v"
      using JObject by force
    with Some show ?thesis
      by (simp add: rev_map map_of_map_prod map_of_reencoded [OF fs'])
  qed
  then have "map_of (rev (map (map_prod id meaning) fs')) = map_of (rev (map (map_prod id meaning) fs))"
    by (rule ext)
  then show ?case
    by (simp only: fs' meaning.simps)
qed (simp_all add: reencode_def)

lemma reencode_JNull_iff: "reencode v = JNull \<longleftrightarrow> v = JNull"
  by (cases v) (simp_all add: reencode_def)

lemma decode_pointer_reencode:
  assumes "\<forall>a b. meaning a = meaning b \<longrightarrow> dh a = dh b"
  shows "decode_pointer dh (reencode v) = decode_pointer dh v"
proof (cases "v = JNull")
  case True
  then show ?thesis
    by (simp add: reencode_def)
next
  case False
  then have n: "reencode v \<noteq> JNull"
    by (simp add: reencode_JNull_iff)
  have "dh (reencode v) = dh v"
    using assms meaning_reencode by blast
  with False n show ?thesis
    by (cases v; cases "reencode v") (simp_all add: decode_pointer_def)
qed

lemma same_meaning_field:
  assumes "map_option meaning x = map_option meaning y"
  shows "(case x of None \<Rightarrow> a | Some JNull \<Rightarrow> b | Some (JNumber n) \<Rightarrow> f n | Some _ \<Rightarrow> c) =
         (case y of None \<Rightarrow> a | Some JNull \<Rightarrow> b | Some (JNumber n) \<Rightarrow> f n | Some _ \<Rightarrow> c)"
proof (cases x)
  case None
  with assms show ?thesis by (cases y) simp_all
next
  case (Some v)
  with assms obtain w where y: "y = Some w" and m: "meaning v = meaning w"
    by (cases y) simp_all
  from m show ?thesis
    unfolding Some y by (cases v; cases w) simp_all
qed

lemma Unmarshal_CurrentState_meaning:
  assumes "meaning a = meaning b"
  shows "Unmarshal_CurrentState a = Unmarshal_CurrentState b"
proof (cases a)
  case (JObject fs)
  with assms obtain fs' where b: "b = JObject fs'"
    by (cases b) simp_all
  from assms have "map_of (rev (map (map_prod id meaning) fs)) k =
      map_of (rev (map (map_prod id meaning) fs')) k" for k
    by (simp add: JObject b)
  then have "map_option meaning (map_of (rev fs) k) = map_option meaning (map_of (rev fs') k)" for k
    by (simp add: rev_map map_of_map_prod)
  then have "number_field fs k = number_field fs' k" for k
    unfolding number_field_def by (rule same_meaning_field)
  then have nf: "number_field fs = number_field fs'"
    by (rule ext)
  show ?thesis
    unfolding JObject b Unmarshal_CurrentState_def json.case nf ..
qed (use assms in \<open>cases b; simp add: Unmarshal_CurrentState_def\<close>)+

subsection \<open>The key partition\<close>

text \<open>
  C1. A valid tool-state payload is an object with distinct keys that the typed decoding
  accepts. Normalizing it returns no error. The keys of \<open>Current\<close> are the keys of the
  payload without \<^verbatim>\<open>history\<close>, each once, as many as the payload has. The value of a key
  is the \<^verbatim>\<open>CurrentState\<close> decoded from the member as line 36 of the source re-encodes it,
  and the re-encoded member denotes the same JSON value as the member itself; so for a
  decoder that reads the JSON value (and not the order in which an object spells its
  members) the value of the key is the member, decoded. \<open>History\<close> is what the member
  \<^verbatim>\<open>history\<close> decodes to: the \<^verbatim>\<open>nil\<close> slice when the payload has no such key, and for an
  array a slice of the same length whose \<open>i\<close>-th element is, in the same sense, the
  \<open>i\<close>-th element of the array, decoded.
\<close>

theorem UnmarshalJSON_partitions_keys:
  assumes p: "parse b = Inr (JObject kvs)"
    and d: "distinct (map fst kvs)"
    and v: "decodable dc dh kvs"
  shows "\<exists>m h. UnmarshalJSON parse dc dh b r = (None, \<lparr>Current = Some m, History = h\<rparr>)
     \<and> distinct (map fst m)
     \<and> fst ` set m = fst ` set kvs - {''history''}
     \<and> length m = length (filter (\<lambda>kv. fst kv \<noteq> ''history'') kvs)
     \<and> (\<forall>kv \<in> set kvs. fst kv \<noteq> ''history'' \<longrightarrow>
           map_of m (fst kv) \<noteq> None \<and> map_of m (fst kv) = dc (reencode (snd kv))
           \<and> meaning (reencode (snd kv)) = meaning (snd kv)
           \<and> ((\<forall>x y. meaning x = meaning y \<longrightarrow> dc x = dc y) \<longrightarrow> map_of m (fst kv) = dc (snd kv)))
     \<and> Unmarshal_History dh (reencode (member kvs ''history'')) = Some h
     \<and> (''history'' \<notin> fst ` set kvs \<longrightarrow> h = None)
     \<and> (\<forall>vs. (''history'', JArray vs) \<in> set kvs \<longrightarrow>
           length (elements h) = length vs \<and>
           (\<forall>i < length vs.
              decode_pointer dh (reencode (vs ! i)) = Some (elements h ! i)
              \<and> meaning (reencode (vs ! i)) = meaning (vs ! i)
              \<and> ((\<forall>x y. meaning x = meaning y \<longrightarrow> dh x = dh y) \<longrightarrow>
                   decode_pointer dh (vs ! i) = Some (elements h ! i))))"
proof -
  define m where "m = map (\<lambda>kv. (fst kv, the (dc (reencode (snd kv))))) (entries kvs)"
  define h where "h = the (Unmarshal_History dh (reencode (member kvs ''history'')))"
  have res: "UnmarshalJSON parse dc dh b r = (None, \<lparr>Current = Some m, History = h\<rparr>)"
    using v by (simp add: UnmarshalJSON_decodable [of parse b kvs, OF p] m_def h_def)
  have keys: "map fst m = map fst (entries kvs)"
    by (simp add: m_def comp_def)
  have dm: "distinct (map fst m)"
    by (simp add: keys distinct_entries)
  have im: "fst ` set m = fst ` set kvs - {''history''}"
  proof -
    have "fst ` set m = set (map fst m)" by simp
    also have "\<dots> = fst ` set (entries kvs)" unfolding keys by simp
    finally show ?thesis by (simp only: keys_entries)
  qed
  have len: "length m = length (filter (\<lambda>kv. fst kv \<noteq> ''history'') kvs)"
    by (simp add: m_def entries_of_distinct(2) [OF d])
  have vals: "map_of m (fst kv) \<noteq> None \<and> map_of m (fst kv) = dc (reencode (snd kv))
           \<and> meaning (reencode (snd kv)) = meaning (snd kv)
           \<and> ((\<forall>x y. meaning x = meaning y \<longrightarrow> dc x = dc y) \<longrightarrow> map_of m (fst kv) = dc (snd kv))"
    if kv: "kv \<in> set kvs" and nh: "fst kv \<noteq> ''history''" for kv
  proof -
    have mem: "kv \<in> set (entries kvs)"
      using kv nh by (simp add: entries_of_distinct(1) [OF d])
    then have "(fst kv, snd kv) \<in> set (entries kvs)"
      by simp
    then have look: "map_of (entries kvs) (fst kv) = Some (snd kv)"
      by (simp only: map_of_eq_Some_iff [OF distinct_entries])
    from v mem obtain c where c: "dc (reencode (snd kv)) = Some c"
      by (auto simp add: decodable_def list_all_iff)
    have mk: "map_of m (fst kv) = Some c"
      by (simp add: m_def map_of_map_values [of "\<lambda>x. the (dc (reencode x))"] look c)
    have same: "meaning (reencode (snd kv)) = meaning (snd kv)"
      by (rule meaning_reencode)
    have direct: "(\<forall>x y. meaning x = meaning y \<longrightarrow> dc x = dc y) \<longrightarrow> map_of m (fst kv) = dc (snd kv)"
    proof
      assume "\<forall>x y. meaning x = meaning y \<longrightarrow> dc x = dc y"
      with same have "dc (reencode (snd kv)) = dc (snd kv)"
        by blast
      then show "map_of m (fst kv) = dc (snd kv)"
        by (simp only: mk c)
    qed
    have "map_of m (fst kv) \<noteq> None" "map_of m (fst kv) = dc (reencode (snd kv))"
      by (simp_all only: mk c option.distinct not_False_eq_True)
    with same direct show ?thesis
      by (intro conjI)
  qed
  have hist: "Unmarshal_History dh (reencode (member kvs ''history'')) = Some h"
    using v by (auto simp add: decodable_def h_def)
  have absent: "h = None" if "''history'' \<notin> fst ` set kvs"
    using hist history_of_absent [OF that, of dh] by simp
  have arr: "length (elements h) = length vs \<and>
       (\<forall>i < length vs.
              decode_pointer dh (reencode (vs ! i)) = Some (elements h ! i)
              \<and> meaning (reencode (vs ! i)) = meaning (vs ! i)
              \<and> ((\<forall>x y. meaning x = meaning y \<longrightarrow> dh x = dh y) \<longrightarrow>
                   decode_pointer dh (vs ! i) = Some (elements h ! i)))"
    if "(''history'', JArray vs) \<in> set kvs" for vs
  proof -
    from hist member_of_distinct [OF d that] history_of_array [of dh vs h]
    have l: "length (elements h) = length vs"
      and e: "\<forall>i < length vs. decode_pointer dh (reencode (vs ! i)) = Some (elements h ! i)"
      by simp_all
    have "decode_pointer dh (reencode (vs ! i)) = Some (elements h ! i)
              \<and> meaning (reencode (vs ! i)) = meaning (vs ! i)
              \<and> ((\<forall>x y. meaning x = meaning y \<longrightarrow> dh x = dh y) \<longrightarrow>
                   decode_pointer dh (vs ! i) = Some (elements h ! i))"
      if i: "i < length vs" for i
    proof (intro conjI impI)
      from e i show ei: "decode_pointer dh (reencode (vs ! i)) = Some (elements h ! i)"
        by blast
      show "meaning (reencode (vs ! i)) = meaning (vs ! i)"
        by (rule meaning_reencode)
      assume "\<forall>x y. meaning x = meaning y \<longrightarrow> dh x = dh y"
      then have "decode_pointer dh (reencode (vs ! i)) = decode_pointer dh (vs ! i)"
        by (rule decode_pointer_reencode)
      with ei show "decode_pointer dh (vs ! i) = Some (elements h ! i)"
        by (simp only:)
    qed
    then have "\<forall>i < length vs.
              decode_pointer dh (reencode (vs ! i)) = Some (elements h ! i)
              \<and> meaning (reencode (vs ! i)) = meaning (vs ! i)
              \<and> ((\<forall>x y. meaning x = meaning y \<longrightarrow> dh x = dh y) \<longrightarrow>
                   decode_pointer dh (vs ! i) = Some (elements h ! i))"
      by (intro allI impI)
    with l show ?thesis
      by (rule conjI)
  qed
  show ?thesis
  proof (intro exI conjI)
    show "UnmarshalJSON parse dc dh b r = (None, \<lparr>Current = Some m, History = h\<rparr>)" by (fact res)
    show "distinct (map fst m)" by (fact dm)
    show "fst ` set m = fst ` set kvs - {''history''}" by (fact im)
    show "length m = length (filter (\<lambda>kv. fst kv \<noteq> ''history'') kvs)" by (fact len)
    show "\<forall>kv \<in> set kvs. fst kv \<noteq> ''history'' \<longrightarrow>
           map_of m (fst kv) \<noteq> None \<and> map_of m (fst kv) = dc (reencode (snd kv))
           \<and> meaning (reencode (snd kv)) = meaning (snd kv)
           \<and> ((\<forall>x y. meaning x = meaning y \<longrightarrow> dc x = dc y) \<longrightarrow> map_of m (fst kv) = dc (snd kv))"
      by (intro ballI impI) (rule vals)
    show "Unmarshal_History dh (reencode (member kvs ''history'')) = Some h" by (fact hist)
    show "''history'' \<notin> fst ` set kvs \<longrightarrow> h = None" using absent by blast
    show "\<forall>vs. (''history'', JArray vs) \<in> set kvs \<longrightarrow>
           length (elements h) = length vs \<and>
           (\<forall>i < length vs.
              decode_pointer dh (reencode (vs ! i)) = Some (elements h ! i)
              \<and> meaning (reencode (vs ! i)) = meaning (vs ! i)
              \<and> ((\<forall>x y. meaning x = meaning y \<longrightarrow> dh x = dh y) \<longrightarrow>
                   decode_pointer dh (vs ! i) = Some (elements h ! i)))"
      by (intro allI impI) (rule arr)
  qed
qed

text \<open>
  The payload of one tool and one history entry is such a payload. With the tool state of
  the spec and a history decoder that keeps the JSON value of an entry, both of which read
  the JSON value, it normalizes to the one tool state and the one entry, as they are in
  the payload.
\<close>

theorem UnmarshalJSON_partitions_keys_witness:
  "distinct (map fst sample_members) \<and> decodable Unmarshal_CurrentState value_of sample_members \<and>
   UnmarshalJSON (table_parse [(sample_text, JObject sample_members)]) Unmarshal_CurrentState value_of
       sample_text zero_ToolResponse =
     (None, \<lparr>Current = Some [(''tool0'', \<lparr>actual = 200, target = 210, offset = 0\<rparr>)],
             History = Some [Some (meaning (JObject [(''actual'', JNumber 199), (''target'', JNumber 210),
                                                    (''timestamp'', JNumber 1000)]))]\<rparr>)"
proof -
  let ?entry = "JObject [(''actual'', JNumber (199::int)), (''target'', JNumber 210),
                         (''timestamp'', JNumber 1000)]"
  have p: "table_parse [(sample_text, JObject sample_members)] sample_text = Inr (JObject sample_members)"
    by (simp add: table_parse_def)
  have d: "distinct (map fst sample_members)"
    by (simp add: sample_members_def)
  have v: "decodable Unmarshal_CurrentState value_of sample_members"
    by (simp add: decodable_def entries_def sample_members_def reencode_def member_def
        Unmarshal_CurrentState_def number_field_def Unmarshal_History_def decode_pointer_def
        value_of_def)
  have rc: "\<forall>x y :: int json. meaning x = meaning y \<longrightarrow> Unmarshal_CurrentState x = Unmarshal_CurrentState y"
    using Unmarshal_CurrentState_meaning by blast
  have rh: "\<forall>x y :: int json. meaning x = meaning y \<longrightarrow> value_of x = value_of y"
    by (simp add: value_of_def)
  from UnmarshalJSON_partitions_keys [of "table_parse [(sample_text, JObject sample_members)]"
      sample_text sample_members Unmarshal_CurrentState value_of zero_ToolResponse, OF p d v]
  obtain m where "\<exists>h. UnmarshalJSON (table_parse [(sample_text, JObject sample_members)])
        Unmarshal_CurrentState value_of sample_text zero_ToolResponse = (None, \<lparr>Current = Some m, History = h\<rparr>)
     \<and> distinct (map fst m)
     \<and> fst ` set m = fst ` set sample_members - {''history''}
     \<and> length m = length (filter (\<lambda>kv. fst kv \<noteq> ''history'') sample_members)
     \<and> (\<forall>kv \<in> set sample_members. fst kv \<noteq> ''history'' \<longrightarrow>
           map_of m (fst kv) \<noteq> None \<and> map_of m (fst kv) = Unmarshal_CurrentState (reencode (snd kv))
           \<and> meaning (reencode (snd kv)) = meaning (snd kv)
           \<and> ((\<forall>x y :: int json. meaning x = meaning y \<longrightarrow> Unmarshal_CurrentState x = Unmarshal_CurrentState y)
                \<longrightarrow> map_of m (fst kv) = Unmarshal_CurrentState (snd kv)))
     \<and> Unmarshal_History value_of (reencode (member sample_members ''history'')) = Some h
     \<and> (''history'' \<notin> fst ` set sample_members \<longrightarrow> h = None)
     \<and> (\<forall>vs. (''history'', JArray vs) \<in> set sample_members \<longrightarrow>
           length (elements h) = length vs \<and>
           (\<forall>i < length vs.
              decode_pointer value_of (reencode (vs ! i)) = Some (elements h ! i)
              \<and> meaning (reencode (vs ! i)) = meaning (vs ! i)
              \<and> ((\<forall>x y :: int json. meaning x = meaning y \<longrightarrow> value_of x = value_of y) \<longrightarrow>
                   decode_pointer value_of (vs ! i) = Some (elements h ! i))))" ..
  then obtain h where all: "UnmarshalJSON (table_parse [(sample_text, JObject sample_members)])
        Unmarshal_CurrentState value_of sample_text zero_ToolResponse = (None, \<lparr>Current = Some m, History = h\<rparr>)
     \<and> distinct (map fst m)
     \<and> fst ` set m = fst ` set sample_members - {''history''}
     \<and> length m = length (filter (\<lambda>kv. fst kv \<noteq> ''history'') sample_members)
     \<and> (\<forall>kv \<in> set sample_members. fst kv \<noteq> ''history'' \<longrightarrow>
           map_of m (fst kv) \<noteq> None \<and> map_of m (fst kv) = Unmarshal_CurrentState (reencode (snd kv))
           \<and> meaning (reencode (snd kv)) = meaning (snd kv)
           \<and> ((\<forall>x y :: int json. meaning x = meaning y \<longrightarrow> Unmarshal_CurrentState x = Unmarshal_CurrentState y)
                \<longrightarrow> map_of m (fst kv) = Unmarshal_CurrentState (snd kv)))
     \<and> Unmarshal_History value_of (reencode (member sample_members ''history'')) = Some h
     \<and> (''history'' \<notin> fst ` set sample_members \<longrightarrow> h = None)
     \<and> (\<forall>vs. (''history'', JArray vs) \<in> set sample_members \<longrightarrow>
           length (elements h) = length vs \<and>
           (\<forall>i < length vs.
              decode_pointer value_of (reencode (vs ! i)) = Some (elements h ! i)
              \<and> meaning (reencode (vs ! i)) = meaning (vs ! i)
              \<and> ((\<forall>x y :: int json. meaning x = meaning y \<longrightarrow> value_of x = value_of y) \<longrightarrow>
                   decode_pointer value_of (vs ! i) = Some (elements h ! i))))" ..
  note res = all [THEN conjunct1]
  note len = all [THEN conjunct2, THEN conjunct2, THEN conjunct2, THEN conjunct1]
  note val = all [THEN conjunct2, THEN conjunct2, THEN conjunct2, THEN conjunct2, THEN conjunct1]
  note his = all [THEN conjunct2, THEN conjunct2, THEN conjunct2, THEN conjunct2, THEN conjunct2,
      THEN conjunct1]
  note arr = all [THEN conjunct2, THEN conjunct2, THEN conjunct2, THEN conjunct2, THEN conjunct2,
      THEN conjunct2, THEN conjunct2]
  have mh: "(''history'', JArray [?entry]) \<in> set sample_members"
    by (simp add: sample_members_def)
  note a1 = arr [THEN spec, of "[?entry]", THEN mp, OF mh]
  have i0: "0 < length [?entry]"
    by simp
  note a2 = a1 [THEN conjunct2, THEN spec, of 0, THEN mp, OF i0, THEN conjunct2, THEN conjunct2,
      THEN mp, OF rh]
  from a1 [THEN conjunct1] a2
  have "length (elements h) = 1 \<and> decode_pointer value_of ?entry = Some (elements h ! 0)"
    by simp
  then have eh: "elements h = [Some (meaning ?entry)]"
    by (cases "elements h") (simp_all add: decode_pointer_def value_of_def del: meaning.simps)
  from his obtain hs where "h = Some hs"
    by (auto simp add: sample_members_def member_def reencode_def Unmarshal_History_def)
  with eh have h: "h = Some [Some (meaning ?entry)]"
    by (simp add: elements_def)
  from len obtain c where m: "m = [c]"
    by (cases m) (auto simp add: sample_members_def)
  let ?tool = "JObject [(''actual'', JNumber (200::int)), (''target'', JNumber 210), (''offset'', JNumber 0)]"
  have mt: "(''tool0'', ?tool) \<in> set sample_members"
    by (simp add: sample_members_def)
  have nt: "fst (''tool0'', ?tool) \<noteq> ''history''"
    by simp
  note v1 = val [THEN bspec, OF mt, THEN mp, OF nt, THEN conjunct2, THEN conjunct2, THEN conjunct2,
      THEN mp, OF rc]
  then have "map_of m ''tool0'' = Some \<lparr>actual = 200, target = 210, offset = 0\<rparr>"
    by (simp add: Unmarshal_CurrentState_def number_field_def)
  with m have "m = [(''tool0'', \<lparr>actual = 200, target = 210, offset = 0\<rparr>)]"
    by (cases c) (auto split: if_splits)
  with res h d v show ?thesis by (simp del: meaning.simps)
qed

subsection \<open>Requests and round trips\<close>

lemma ToValidUTF8_ascii:
  "\<forall>c \<in> set s. (of_char c :: nat) < 0x80 \<Longrightarrow> ToValidUTF8 s = s"
proof (induction s)
  case Nil
  show ?case by (simp add: ToValidUTF8.simps [of "[]"])
next
  case (Cons b bs)
  then have w: "rune_width (b # bs) = 1"
    by (simp add: rune_width_def)
  from Cons have "ToValidUTF8 bs = bs"
    by simp
  then show ?case
    by (simp add: ToValidUTF8.simps [of "b # bs"] w)
qed

lemma Marshal_command_struct:
  assumes "name \<noteq> ''command''"
  shows "Marshal_struct [Tagged ''command'' (StringValue lit), Embedded [Tagged name v]] =
         JObject [(''command'', JString (ToValidUTF8 lit)), (name, Marshal_value v)]"
  using assms by (simp add: Marshal_struct_def dominant_def Marshal_value_def)

lemma logged_once:
  "logged doRequest m u b (c, log) =
     (fst (doRequest m u b c), (snd (doRequest m u b c), log @ [(m, u, b)]))"
  by (simp add: logged_def split: prod.split)

lemma ToolCommand_Do_logged:
  "ToolCommand_Do parse dc dh (logged doRequest) cmd (c, log) =
     (fst (ToolCommand_Do parse dc dh doRequest cmd c),
      (snd (doRequest ''GET'' (uri cmd) None c), log @ [(''GET'', uri cmd, None)]))"
  by (simp add: ToolCommand_Do_def logged_once split: prod.split sum.split option.split)

lemma ToolCommand_Do_transport_error:
  "fst (doRequest ''GET'' (uri cmd) None c) = Inl err \<Longrightarrow>
   fst (ToolCommand_Do parse dc dh doRequest cmd c) = Inl err"
  by (auto simp add: ToolCommand_Do_def split: prod.split sum.split option.split)

lemma post_logged:
  "post (logged doRequest) (Inr b) (c, log) =
     (fst (post doRequest (Inr b) c),
      (snd (doRequest ''POST'' URITool (Some b) c), log @ [(''POST'', URITool, Some b)]))"
  by (simp add: post_def logged_once split: prod.split sum.split)

lemma post_transport_error:
  "fst (doRequest ''POST'' URITool (Some b) c) = Inl err \<Longrightarrow>
   fst (post doRequest (Inr b) c) = Some err"
  by (auto simp add: post_def split: prod.split sum.split)

lemma fmt_d_5: "fmt_d 5 = ''5''"
  by code_simp

lemma digit_char:
  assumes "d < 10"
  shows "is_digit (''0123456789'' ! d)" and "digit_value (''0123456789'' ! d) = d"
    and "''0123456789'' ! d = CHR ''0'' \<longleftrightarrow> d = 0"
proof -
  from assms have "d = 0 \<or> d = 1 \<or> d = 2 \<or> d = 3 \<or> d = 4 \<or> d = 5 \<or> d = 6 \<or> d = 7
      \<or> d = 8 \<or> d = 9"
    by arith
  then have "is_digit (''0123456789'' ! d) \<and> digit_value (''0123456789'' ! d) = d
      \<and> (''0123456789'' ! d = CHR ''0'' \<longleftrightarrow> d = 0)"
    by (elim disjE) (simp_all add: is_digit_def digit_value_def)
  then show "is_digit (''0123456789'' ! d)" and "digit_value (''0123456789'' ! d) = d"
    and "''0123456789'' ! d = CHR ''0'' \<longleftrightarrow> d = 0"
    by simp_all
qed

lemma digits_value_snoc: "digits_value (s @ [c]) = 10 * digits_value s + digit_value c"
  by (simp add: digits_value_def)

lemma decimal_nonempty: "decimal n \<noteq> []"
  by (subst decimal.simps) simp

lemma decimal_reads: "digits_value (decimal n) = n"
proof (induction n rule: decimal.induct)
  case (1 n)
  show ?case
  proof (cases "n < 10")
    case True
    then show ?thesis
      by (subst decimal.simps) (simp add: digits_value_def digit_char(2))
  next
    case False
    with 1 have "digits_value (decimal (n div 10)) = n div 10"
      by simp
    with False show ?thesis
      by (subst decimal.simps) (simp add: digits_value_snoc digit_char(2))
  qed
qed

lemma decimal_digits: "list_all is_digit (decimal n)"
proof (induction n rule: decimal.induct)
  case (1 n)
  show ?case
  proof (cases "n < 10")
    case True
    then show ?thesis
      by (subst decimal.simps) (simp add: digit_char(1))
  next
    case False
    with 1 have "list_all is_digit (decimal (n div 10))"
      by simp
    with False show ?thesis
      by (subst decimal.simps) (simp add: digit_char(1))
  qed
qed

lemma decimal_leading: "hd (decimal n) = CHR ''0'' \<Longrightarrow> n = 0"
proof (induction n rule: decimal.induct)
  case (1 n)
  show ?case
  proof (cases "n < 10")
    case True
    with 1(2) show ?thesis
      by (subst (asm) decimal.simps) (simp add: digit_char(3))
  next
    case False
    with 1(2) have "hd (decimal (n div 10)) = CHR ''0''"
      by (subst (asm) decimal.simps) (simp add: decimal_nonempty)
    with 1(1) False have "n div 10 = 0"
      by simp
    with False show ?thesis
      by simp
  qed
qed

lemma decimal_0: "decimal 0 = ''0''"
  by code_simp

lemma fmt_d_canonical:
  "\<exists>ds. fmt_d i = (if i < 0 then ''-'' else []) @ ds \<and> ds \<noteq> [] \<and> list_all is_digit ds
      \<and> int (digits_value ds) = \<bar>i\<bar> \<and> (hd ds = CHR ''0'' \<longrightarrow> i = 0 \<and> ds = ''0'')"
proof (cases "i < 0")
  case True
  have "hd (decimal (nat (- i))) \<noteq> CHR ''0''"
    using True decimal_leading [of "nat (- i)"] by auto
  with True show ?thesis
    by (intro exI [of _ "decimal (nat (- i))"])
      (simp add: fmt_d_def decimal_nonempty decimal_digits decimal_reads)
next
  case False
  have "i = 0 \<and> decimal (nat i) = ''0''" if "hd (decimal (nat i)) = CHR ''0''"
    using False decimal_leading [OF that] by (simp add: decimal_0)
  with False show ?thesis
    by (intro exI [of _ "decimal (nat i)"])
      (auto simp add: fmt_d_def decimal_nonempty decimal_digits decimal_reads)
qed

text \<open>
  C4. Whatever the transport does, \<^verbatim>\<open>ToolCommand.Do\<close> sends it one request: method GET, the
  tool endpoint followed by \<^verbatim>\<open>?history=\<close>, the boolean as \<^verbatim>\<open>true\<close> or \<^verbatim>\<open>false\<close>,
  \<^verbatim>\<open>&limit=\<close> and the integer in decimal, and no body. The integer in decimal is a minus
  sign when the limit is negative, followed by digits, at least one, that read as the
  absolute value of the limit and start with \<^verbatim>\<open>0\<close> only in the numeral \<^verbatim>\<open>0\<close> of the limit
  zero. No command makes the encoding fail: the request is sent for every command. For
  \<^verbatim>\<open>History = true\<close> and \<^verbatim>\<open>Limit = 5\<close> the query is \<^verbatim>\<open>history=true&limit=5\<close>.
\<close>

theorem ToolCommand_Do_request:
  "snd (snd (ToolCommand_Do parse dc dh (logged doRequest) cmd (c, []))) =
     [(''GET'',
       ''/api/printer/tool?history='' @ (if ToolCommand.History cmd then ''true'' else ''false'')
         @ ''&limit='' @ fmt_d (Limit cmd),
       None)]
   \<and> (\<exists>ds. fmt_d (Limit cmd) = (if Limit cmd < 0 then ''-'' else []) @ ds
         \<and> ds \<noteq> [] \<and> list_all is_digit ds \<and> int (digits_value ds) = \<bar>Limit cmd\<bar>
         \<and> (hd ds = CHR ''0'' \<longrightarrow> Limit cmd = 0 \<and> ds = ''0''))
   \<and> snd (snd (ToolCommand_Do parse dc dh (logged doRequest)
                 \<lparr>ToolCommand.History = True, Limit = 5\<rparr> (c, []))) =
     [(''GET'', ''/api/printer/tool?history=true&limit=5'', None)]"
proof (intro conjI)
  show "snd (snd (ToolCommand_Do parse dc dh (logged doRequest) cmd (c, []))) =
     [(''GET'',
       ''/api/printer/tool?history='' @ (if ToolCommand.History cmd then ''true'' else ''false'')
         @ ''&limit='' @ fmt_d (Limit cmd),
       None)]"
    by (simp add: ToolCommand_Do_logged uri_def URITool_def fmt_t_def)
  show "\<exists>ds. fmt_d (Limit cmd) = (if Limit cmd < 0 then ''-'' else []) @ ds
         \<and> ds \<noteq> [] \<and> list_all is_digit ds \<and> int (digits_value ds) = \<bar>Limit cmd\<bar>
         \<and> (hd ds = CHR ''0'' \<longrightarrow> Limit cmd = 0 \<and> ds = ''0'')"
    by (rule fmt_d_canonical)
  show "snd (snd (ToolCommand_Do parse dc dh (logged doRequest)
                 \<lparr>ToolCommand.History = True, Limit = 5\<rparr> (c, []))) =
     [(''GET'', ''/api/printer/tool?history=true&limit=5'', None)]"
    by (simp add: ToolCommand_Do_logged uri_def URITool_def fmt_t_def fmt_d_5)
qed

text \<open>
  The request of a command without history and with a negative limit; the limit zero, whose
  numeral starts with \<^verbatim>\<open>0\<close>; and the limit 123, with its three digits.
\<close>

theorem ToolCommand_Do_request_witness:
  "snd (snd (ToolCommand_Do (table_parse [(''{}'', JObject [] :: int json)]) Unmarshal_CurrentState Some
       (logged (answering ''{}'' :: (unit, string) transport))
       \<lparr>ToolCommand.History = False, Limit = - 12\<rparr> ((), []))) =
     [(''GET'', ''/api/printer/tool?history=false&limit=-12'', None :: int json option)]
   \<and> hd (fmt_d 0) = CHR ''0'' \<and> fmt_d 0 = ''0''
   \<and> fmt_d 123 = ''123'' \<and> list_all is_digit ''123'' \<and> digits_value ''123'' = 123"
proof -
  have "fmt_d (- 12) = ''-12''" by code_simp
  with ToolCommand_Do_request [of "table_parse [(''{}'', JObject [] :: int json)]" Unmarshal_CurrentState Some
      "answering ''{}'' :: (unit, string) transport" "\<lparr>ToolCommand.History = False, Limit = - 12\<rparr>" "()"]
  have neg: "snd (snd (ToolCommand_Do (table_parse [(''{}'', JObject [] :: int json)]) Unmarshal_CurrentState Some
       (logged (answering ''{}'' :: (unit, string) transport))
       \<lparr>ToolCommand.History = False, Limit = - 12\<rparr> ((), []))) =
     [(''GET'', ''/api/printer/tool?history=false&limit=-12'', None :: int json option)]"
    by simp
  have z: "hd (fmt_d 0) = CHR ''0''" by code_simp
  from ToolCommand_Do_request [of "table_parse [(''{}'', JObject [] :: int json)]" Unmarshal_CurrentState Some
      "answering ''{}'' :: (unit, string) transport" "\<lparr>ToolCommand.History = False, Limit = 0\<rparr>" "()"]
  obtain ds where "fmt_d 0 = ds" and "hd ds = CHR ''0'' \<longrightarrow> ds = ''0''"
    by auto
  with z have zero: "fmt_d 0 = ''0''"
    by simp
  have c: "fmt_d 123 = ''123''" by code_simp
  from ToolCommand_Do_request [of "table_parse [(''{}'', JObject [] :: int json)]" Unmarshal_CurrentState Some
      "answering ''{}'' :: (unit, string) transport" "\<lparr>ToolCommand.History = False, Limit = 123\<rparr>" "()"]
  obtain es where "fmt_d 123 = es" and "list_all is_digit es" and "int (digits_value es) = 123"
    by auto
  with c have "list_all is_digit ''123''" and "digits_value ''123'' = 123"
    by simp_all
  with neg z zero c show ?thesis
    by (intro conjI)
qed

text \<open>
  C5. For each of the six commands and for every transport, one \<^verbatim>\<open>Do\<close> leaves exactly one
  request in the log of the transport; and if the transport answers that request with an
  error, \<^verbatim>\<open>Do\<close> returns this error, the same value, and \<^verbatim>\<open>ToolCommand.Do\<close> returns no
  response with it.
\<close>

theorem Do_one_round_trip:
  fixes doRequest :: "('s, 'e) transport"
  shows
  "(\<exists>rq. snd (snd (ToolCommand_Do parse dc dh (logged doRequest) cmd0 (c, []))) = [rq]
      \<and> (\<forall>err. fst (doRequest (fst rq) (fst (snd rq)) (snd (snd rq)) c) = Inl err
            \<longrightarrow> fst (ToolCommand_Do parse dc dh doRequest cmd0 c) = Inl err))
   \<and> (\<exists>rq. snd (snd (TargetCommand_Do (logged doRequest) cmd1 (c, []))) = [rq]
      \<and> (\<forall>err. fst (doRequest (fst rq) (fst (snd rq)) (snd (snd rq)) c) = Inl err
            \<longrightarrow> fst (TargetCommand_Do doRequest cmd1 c) = Some err))
   \<and> (\<exists>rq. snd (snd (OffsetCommand_Do (logged doRequest) cmd2 (c, []))) = [rq]
      \<and> (\<forall>err. fst (doRequest (fst rq) (fst (snd rq)) (snd (snd rq)) c) = Inl err
            \<longrightarrow> fst (OffsetCommand_Do doRequest cmd2 c) = Some err))
   \<and> (\<exists>rq. snd (snd (ExtrudeCommand_Do (logged doRequest) cmd3 (c, []))) = [rq]
      \<and> (\<forall>err. fst (doRequest (fst rq) (fst (snd rq)) (snd (snd rq)) c) = Inl err
            \<longrightarrow> fst (ExtrudeCommand_Do doRequest cmd3 c) = Some err))
   \<and> (\<exists>rq. snd (snd (SelectCommand_Do (logged doRequest) cmd4 (c, []))) = [rq]
      \<and> (\<forall>err. fst (doRequest (fst rq) (fst (snd rq)) (snd (snd rq)) c) = Inl err
            \<longrightarrow> fst (SelectCommand_Do doRequest cmd4 c) = Some err))
   \<and> (\<exists>rq. snd (snd (FlowrateCommand_Do (logged doRequest) cmd5 (c, []))) = [rq]
      \<and> (\<forall>err. fst (doRequest (fst rq) (fst (snd rq)) (snd (snd rq)) c) = Inl err
            \<longrightarrow> fst (FlowrateCommand_Do doRequest cmd5 c) = Some err))"
proof (intro conjI)
  show "\<exists>rq. snd (snd (ToolCommand_Do parse dc dh (logged doRequest) cmd0 (c, []))) = [rq]
      \<and> (\<forall>err. fst (doRequest (fst rq) (fst (snd rq)) (snd (snd rq)) c) = Inl err
            \<longrightarrow> fst (ToolCommand_Do parse dc dh doRequest cmd0 c) = Inl err)"
    by (simp add: ToolCommand_Do_logged ToolCommand_Do_transport_error)
  show "\<exists>rq. snd (snd (TargetCommand_Do (logged doRequest) cmd1 (c, []))) = [rq]
      \<and> (\<forall>err. fst (doRequest (fst rq) (fst (snd rq)) (snd (snd rq)) c) = Inl err
            \<longrightarrow> fst (TargetCommand_Do doRequest cmd1 c) = Some err)"
    by (simp add: TargetCommand_Do_def TargetCommand_encode_def post_logged post_transport_error)
  show "\<exists>rq. snd (snd (OffsetCommand_Do (logged doRequest) cmd2 (c, []))) = [rq]
      \<and> (\<forall>err. fst (doRequest (fst rq) (fst (snd rq)) (snd (snd rq)) c) = Inl err
            \<longrightarrow> fst (OffsetCommand_Do doRequest cmd2 c) = Some err)"
    by (simp add: OffsetCommand_Do_def OffsetCommand_encode_def post_logged post_transport_error)
  show "\<exists>rq. snd (snd (ExtrudeCommand_Do (logged doRequest) cmd3 (c, []))) = [rq]
      \<and> (\<forall>err. fst (doRequest (fst rq) (fst (snd rq)) (snd (snd rq)) c) = Inl err
            \<longrightarrow> fst (ExtrudeCommand_Do doRequest cmd3 c) = Some err)"
    by (simp add: ExtrudeCommand_Do_def ExtrudeCommand_encode_def post_logged post_transport_error)
  show "\<exists>rq. snd (snd (SelectCommand_Do (logged doRequest) cmd4 (c, []))) = [rq]
      \<and> (\<forall>err. fst (doRequest (fst rq) (fst (snd rq)) (snd (snd rq)) c) = Inl err
            \<longrightarrow> fst (SelectCommand_Do doRequest cmd4 c) = Some err)"
    by (simp add: SelectCommand_Do_def SelectCommand_encode_def post_logged post_transport_error)
  show "\<exists>rq. snd (snd (FlowrateCommand_Do (logged doRequest) cmd5 (c, []))) = [rq]
      \<and> (\<forall>err. fst (doRequest (fst rq) (fst (snd rq)) (snd (snd rq)) c) = Inl err
            \<longrightarrow> fst (FlowrateCommand_Do doRequest cmd5 c) = Some err)"
    by (simp add: FlowrateCommand_Do_def FlowrateCommand_encode_def post_logged post_transport_error)
qed

text \<open>
  On a transport that refuses every connection: \<^verbatim>\<open>SelectCommand{Tool: "tool1"}.Do\<close> posts
  its body once and returns the refusal, and so does the read command.
\<close>

theorem Do_one_round_trip_witness:
  "snd (snd (SelectCommand_Do (logged (failing (OtherError ''connection refused'')))
               \<lparr>Tool = ''tool1''\<rparr> ((), []))) =
     [(''POST'', ''/api/printer/tool'',
       Some (JObject [(''command'', JString ''select''), (''tool'', JString ''tool1'')]))]
   \<and> fst (SelectCommand_Do (failing (OtherError ''connection refused'')) \<lparr>Tool = ''tool1''\<rparr> ()) =
       Some (OtherError ''connection refused'')
   \<and> fst (ToolCommand_Do (table_parse [(''{}'', JObject [] :: int json)]) Unmarshal_CurrentState Some
            (failing (OtherError ''connection refused'')) \<lparr>ToolCommand.History = True, Limit = 5\<rparr> ()) =
       Inl (OtherError ''connection refused'')"
  using Do_one_round_trip [of "table_parse [(''{}'', JObject [] :: int json)]" Unmarshal_CurrentState Some
      "failing (OtherError ''connection refused'')" "\<lparr>ToolCommand.History = True, Limit = 5\<rparr>" "()"
      "\<lparr>Target = Some [(''tool0'', 210)]\<rparr>" "\<lparr>Offsets = None\<rparr>" "\<lparr>Amount = - 5\<rparr>"
      "\<lparr>Tool = ''tool1''\<rparr>" "\<lparr>Factor = ''95''\<rparr>"]
  by (simp add: failing_def SelectCommand_Do_def SelectCommand_encode_def SelectCommand_fields_def
      Marshal_command_struct Marshal_value_def ToValidUTF8_ascii post_logged URITool_def)

subsection \<open>The bodies of the writing commands\<close>

lemma Marshal_map_int_members:
  "\<exists>ms. Marshal_map_int (Some m) = JObject ms \<and> length ms = length (AList.clearjunk m) \<and>
        ((\<forall>kv \<in> set m. ToValidUTF8 (fst kv) = fst kv) \<longrightarrow>
           distinct (map fst ms) \<and> (\<forall>k. map_of ms k = map_option JNumber (map_of m k)))"
proof -
  let ?E = "sort_key fst (AList.clearjunk m)"
  let ?ms = "map (\<lambda>kv. (ToValidUTF8 (fst kv), JNumber (snd kv))) ?E"
  have d: "distinct (map fst (AList.clearjunk m))"
    by simp
  have dE: "distinct (map fst ?E)"
    using d by (rule distinct_keys_sort_key)
  have valid: "distinct (map fst ?ms) \<and> (\<forall>k. map_of ?ms k = map_option JNumber (map_of m k))"
    if v: "\<forall>kv \<in> set m. ToValidUTF8 (fst kv) = fst kv"
  proof -
    have "set ?E \<subseteq> set m"
      using set_clearjunk_subset [of m] by simp
    with v have "\<forall>kv \<in> set ?E. ToValidUTF8 (fst kv) = fst kv"
      by blast
    then have ms: "?ms = map (\<lambda>kv. (fst kv, JNumber (snd kv))) ?E"
      by simp
    have "map fst (map (\<lambda>kv. (fst kv, JNumber (snd kv))) ?E) = map fst ?E"
      by (simp add: comp_def)
    then have "distinct (map fst ?ms)"
      using dE by (simp only: ms)
    moreover have "map_of ?ms k = map_option JNumber (map_of m k)" for k
      unfolding ms map_of_map_values [of JNumber]
      by (simp only: map_of_sort_key [OF d] map_of_clearjunk)
    ultimately show ?thesis
      by blast
  qed
  have "Marshal_map_int (Some m) = JObject ?ms"
    by (simp add: Marshal_map_int_def)
  moreover have "length ?ms = length (AList.clearjunk m)"
    by simp
  ultimately show ?thesis
    using valid by blast
qed

text \<open>
  The strings written for some strings of a command: two, three and four bytes that are
  one rune each stay; a byte that starts no rune, an overlong form and a surrogate are
  written as one U+FFFD for each of their bytes.
\<close>

lemma ToValidUTF8_samples:
  "ToValidUTF8 [CHR 0xC3, CHR 0xA9] = [CHR 0xC3, CHR 0xA9]"
  "ToValidUTF8 [CHR 0xE2, CHR 0x82, CHR 0xAC] = [CHR 0xE2, CHR 0x82, CHR 0xAC]"
  "ToValidUTF8 [CHR 0xF0, CHR 0x9F, CHR 0x98, CHR 0x80] = [CHR 0xF0, CHR 0x9F, CHR 0x98, CHR 0x80]"
  "ToValidUTF8 [CHR ''a'', CHR 0xFF, CHR ''b''] = [CHR ''a'', CHR 0xEF, CHR 0xBF, CHR 0xBD, CHR ''b'']"
  "ToValidUTF8 [CHR 0xC0, CHR 0x80] = [CHR 0xEF, CHR 0xBF, CHR 0xBD, CHR 0xEF, CHR 0xBF, CHR 0xBD]"
  "ToValidUTF8 [CHR 0xED, CHR 0xA0, CHR 0x80] =
     [CHR 0xEF, CHR 0xBF, CHR 0xBD, CHR 0xEF, CHR 0xBF, CHR 0xBD, CHR 0xEF, CHR 0xBF, CHR 0xBD]"
  by code_simp+

text \<open>
  C3. Each \<^verbatim>\<open>encode\<close> returns no error. What it writes follows from the way
  \<^verbatim>\<open>encoding/json\<close> writes a struct with an embedded struct: an object of two members,
  first \<^verbatim>\<open>command\<close> with the literal of the variant, then the one tagged field of the
  command (\<^verbatim>\<open>target\<close>, \<^verbatim>\<open>offsets\<close>, \<^verbatim>\<open>amount\<close>, \<^verbatim>\<open>tool\<close>, \<^verbatim>\<open>factor\<close>) beside it and not
  under a key of its own, and nothing else. The five literals differ. The tool and the factor
  are JSON strings: the string of the command, with U+FFFD for each byte that is not
  UTF-8, hence the string itself when it is ASCII. A \<^verbatim>\<open>nil\<close> map of temperatures is
  written as \<^verbatim>\<open>null\<close>, any other as an object with one member for each key of the map;
  when the keys are valid UTF-8, each key is there once, with its integer as the value.
\<close>

theorem encode_discriminator_and_fields:
  "TargetCommand_encode c1 =
     Inr (JObject [(''command'', JString ''target''), (''target'', Marshal_map_int (Target c1))])
   \<and> OffsetCommand_encode c2 =
     Inr (JObject [(''command'', JString ''offset''), (''offsets'', Marshal_map_int (Offsets c2))])
   \<and> ExtrudeCommand_encode c3 =
     Inr (JObject [(''command'', JString ''extrude''), (''amount'', JNumber (Amount c3))])
   \<and> SelectCommand_encode c4 =
     Inr (JObject [(''command'', JString ''select''), (''tool'', JString (ToValidUTF8 (Tool c4)))])
   \<and> FlowrateCommand_encode c5 =
     Inr (JObject [(''command'', JString ''flowrate''), (''factor'', JString (ToValidUTF8 (Factor c5)))])
   \<and> distinct [''target'', ''offset'', ''extrude'', ''select'', ''flowrate'']
   \<and> ((\<forall>c \<in> set s. (of_char c :: nat) < 0x80) \<longrightarrow> ToValidUTF8 s = s)
   \<and> Marshal_map_int None = JNull
   \<and> (\<exists>ms. Marshal_map_int (Some m) = JObject ms \<and> length ms = length (AList.clearjunk m) \<and>
          ((\<forall>kv \<in> set m. ToValidUTF8 (fst kv) = fst kv) \<longrightarrow>
             distinct (map fst ms) \<and> (\<forall>k. map_of ms k = map_option JNumber (map_of m k))))"
proof -
  have lit: "ToValidUTF8 ''target'' = ''target''" "ToValidUTF8 ''offset'' = ''offset''"
    "ToValidUTF8 ''extrude'' = ''extrude''" "ToValidUTF8 ''select'' = ''select''"
    "ToValidUTF8 ''flowrate'' = ''flowrate''"
    by (simp_all add: ToValidUTF8_ascii)
  have "TargetCommand_encode c1 =
     Inr (JObject [(''command'', JString ''target''), (''target'', Marshal_map_int (Target c1))])"
    by (simp add: TargetCommand_encode_def TargetCommand_fields_def Marshal_command_struct lit
        Marshal_value_def)
  moreover have "OffsetCommand_encode c2 =
     Inr (JObject [(''command'', JString ''offset''), (''offsets'', Marshal_map_int (Offsets c2))])"
    by (simp add: OffsetCommand_encode_def OffsetCommand_fields_def Marshal_command_struct lit
        Marshal_value_def)
  moreover have "ExtrudeCommand_encode c3 =
     Inr (JObject [(''command'', JString ''extrude''), (''amount'', JNumber (Amount c3))])"
    by (simp add: ExtrudeCommand_encode_def ExtrudeCommand_fields_def Marshal_command_struct lit
        Marshal_value_def)
  moreover have "SelectCommand_encode c4 =
     Inr (JObject [(''command'', JString ''select''), (''tool'', JString (ToValidUTF8 (Tool c4)))])"
    by (simp add: SelectCommand_encode_def SelectCommand_fields_def Marshal_command_struct lit
        Marshal_value_def)
  moreover have "FlowrateCommand_encode c5 =
     Inr (JObject [(''command'', JString ''flowrate''), (''factor'', JString (ToValidUTF8 (Factor c5)))])"
    by (simp add: FlowrateCommand_encode_def FlowrateCommand_fields_def Marshal_command_struct lit
        Marshal_value_def)
  moreover have "distinct [''target'', ''offset'', ''extrude'', ''select'', ''flowrate'']"
    by simp
  moreover have "(\<forall>c \<in> set s. (of_char c :: nat) < 0x80) \<longrightarrow> ToValidUTF8 s = s"
    using ToValidUTF8_ascii by blast
  moreover have "Marshal_map_int None = JNull"
    by (simp add: Marshal_map_int_def)
  ultimately show ?thesis
    using Marshal_map_int_members [of m] by blast
qed

text \<open>
  The bodies of a target command for two tools, of a flow-rate command, and of a select
  command whose tool is the one byte FF.
\<close>

theorem encode_discriminator_and_fields_witness:
  "(TargetCommand_encode \<lparr>Target = Some [(''tool1'', 205), (''tool0'', 210)]\<rparr> :: string error + int json) =
     Inr (JObject [(''command'', JString ''target''),
                   (''target'', JObject [(''tool0'', JNumber 210), (''tool1'', JNumber 205)])])
   \<and> (FlowrateCommand_encode \<lparr>Factor = ''95''\<rparr> :: string error + int json) =
     Inr (JObject [(''command'', JString ''flowrate''), (''factor'', JString ''95'')])
   \<and> (SelectCommand_encode \<lparr>Tool = [CHR 0xFF]\<rparr> :: string error + int json) =
     Inr (JObject [(''command'', JString ''select''), (''tool'', JString [CHR 0xEF, CHR 0xBF, CHR 0xBD])])"
proof -
  have u: "ToValidUTF8 ''tool0'' = ''tool0''" "ToValidUTF8 ''tool1'' = ''tool1''"
    "ToValidUTF8 ''95'' = ''95''"
    by (simp_all add: ToValidUTF8_ascii)
  have f: "ToValidUTF8 [CHR 0xFF] = [CHR 0xEF, CHR 0xBF, CHR 0xBD]"
    by code_simp
  from encode_discriminator_and_fields [of "\<lparr>Target = Some [(''tool1'', 205), (''tool0'', 210)]\<rparr>"
      "\<lparr>Offsets = None\<rparr>" "\<lparr>Amount = 0\<rparr>" "\<lparr>Tool = [CHR 0xFF]\<rparr>" "\<lparr>Factor = ''95''\<rparr>" "''95''" "[(''tool1'', 205), (''tool0'', 210)]",
      where ?'a = string and ?'b = string and ?'c = string and ?'d = string and ?'e = string]
  show ?thesis
    by (simp add: Marshal_map_int_def u f)
qed

subsection \<open>The receiver on failure\<close>

text \<open>
  C10. When \<^verbatim>\<open>UnmarshalJSON\<close> returns an error, from the first decoding or from the
  second, the receiver holds the value it held on entry. When it returns none, the value
  stored does not depend on the value on entry: the receiver is assigned once, the decoded
  value, after both decodings.
\<close>

theorem UnmarshalJSON_error_keeps_receiver:
  "(fst (UnmarshalJSON parse dc dh b r) \<noteq> None \<longrightarrow> snd (UnmarshalJSON parse dc dh b r) = r)
   \<and> (fst (UnmarshalJSON parse dc dh b r) = None \<longrightarrow>
        UnmarshalJSON parse dc dh b r' = UnmarshalJSON parse dc dh b r)"
  by (auto simp add: UnmarshalJSON_def Let_def split: sum.splits)

text \<open>
  A receiver that holds a tool state keeps it when the bytes are not JSON, and when they
  spell an object whose one member is a number and no tool state.
\<close>

theorem UnmarshalJSON_error_keeps_receiver_witness:
  "UnmarshalJSON (table_parse [(''{\"tool0\":5}'', JObject [(''tool0'', JNumber (5::int))])])
       Unmarshal_CurrentState Some ''<html>''
       \<lparr>Current = Some [(''bed'', \<lparr>actual = 60, target = 60, offset = 0\<rparr>)], History = None\<rparr> =
     (Some SyntaxError, \<lparr>Current = Some [(''bed'', \<lparr>actual = 60, target = 60, offset = 0\<rparr>)], History = None\<rparr>)
   \<and> UnmarshalJSON (table_parse [(''{\"tool0\":5}'', JObject [(''tool0'', JNumber (5::int))])])
       Unmarshal_CurrentState Some ''{\"tool0\":5}''
       \<lparr>Current = Some [(''bed'', \<lparr>actual = 60, target = 60, offset = 0\<rparr>)], History = None\<rparr> =
     (Some UnmarshalTypeError, \<lparr>Current = Some [(''bed'', \<lparr>actual = 60, target = 60, offset = 0\<rparr>)], History = None\<rparr>)"
proof -
  let ?parse = "table_parse [(''{\"tool0\":5}'', JObject [(''tool0'', JNumber (5::int))])]"
  let ?r = "\<lparr>Current = Some [(''bed'', \<lparr>actual = 60 :: int, target = 60, offset = 0\<rparr>)],
             History = None :: int json option list option\<rparr>"
  have e1: "fst (UnmarshalJSON ?parse Unmarshal_CurrentState Some ''<html>'' ?r) = Some SyntaxError"
    by (simp add: UnmarshalJSON_def Unmarshal_map_def table_parse_def)
  have p: "?parse ''{\"tool0\":5}'' = Inr (JObject [(''tool0'', JNumber 5)])"
    by (simp add: table_parse_def)
  have "\<not> decodable Unmarshal_CurrentState (Some :: int json \<Rightarrow> _) [(''tool0'', JNumber 5)]"
    by (simp add: decodable_def entries_def reencode_def Unmarshal_CurrentState_def)
  then have e2: "fst (UnmarshalJSON ?parse Unmarshal_CurrentState Some ''{\"tool0\":5}'' ?r) = Some UnmarshalTypeError"
    by (simp add: UnmarshalJSON_decodable [of ?parse _ _, OF p])
  from e1 e2
    UnmarshalJSON_error_keeps_receiver [of ?parse Unmarshal_CurrentState Some "''<html>''" ?r ?r]
    UnmarshalJSON_error_keeps_receiver [of ?parse Unmarshal_CurrentState Some "''{\"tool0\":5}''" ?r ?r]
  show ?thesis
    by (simp add: prod_eq_iff)
qed

subsection \<open>Payloads without history\<close>

lemma decodable_without_history:
  assumes "''history'' \<notin> fst ` set kvs"
  shows "decodable dc dh kvs \<longleftrightarrow> list_all (\<lambda>kv. dc (reencode (snd kv)) \<noteq> None) (entries kvs)"
  by (simp add: decodable_def history_of_absent [OF assms])

text \<open>
  C2, as the code has it. For an object payload without the key \<^verbatim>\<open>history\<close>, each of whose
  members decodes as a \<^verbatim>\<open>CurrentState\<close>, normalization returns no error, \<open>History\<close> is the
  \<^verbatim>\<open>nil\<close> slice (the empty sequence) and \<open>Current\<close> has the keys of the payload, each once;
  the empty object gives the empty map. The missing key is never the cause of an error:
  without it, normalization fails exactly when a member does not decode.
\<close>

theorem UnmarshalJSON_without_history:
  assumes p: "parse b = Inr (JObject kvs)"
    and nh: "''history'' \<notin> fst ` set kvs"
  shows "(fst (UnmarshalJSON parse dc dh b r) = None \<longleftrightarrow>
            list_all (\<lambda>kv. dc (reencode (snd kv)) \<noteq> None) (entries kvs))
     \<and> ((\<forall>kv \<in> set kvs. dc (reencode (snd kv)) \<noteq> None) \<longrightarrow>
          (\<exists>m. UnmarshalJSON parse dc dh b r = (None, \<lparr>Current = Some m, History = None\<rparr>)
             \<and> distinct (map fst m) \<and> fst ` set m = fst ` set kvs \<and> (kvs = [] \<longrightarrow> m = [])))"
proof (intro conjI impI)
  show "fst (UnmarshalJSON parse dc dh b r) = None \<longleftrightarrow>
            list_all (\<lambda>kv. dc (reencode (snd kv)) \<noteq> None) (entries kvs)"
    by (simp add: UnmarshalJSON_decodable [of parse b kvs, OF p] decodable_without_history [OF nh])
next
  assume all: "\<forall>kv \<in> set kvs. dc (reencode (snd kv)) \<noteq> None"
  define m where "m = map (\<lambda>kv. (fst kv, the (dc (reencode (snd kv))))) (entries kvs)"
  have "list_all (\<lambda>kv. dc (reencode (snd kv)) \<noteq> None) (entries kvs)"
    using all set_entries_subset [of kvs] by (auto simp add: list_all_iff)
  then have v: "decodable dc dh kvs"
    by (simp add: decodable_without_history [OF nh])
  have h: "the (Unmarshal_History dh (reencode (member kvs ''history''))) = None"
    by (simp add: history_of_absent [OF nh])
  have res: "UnmarshalJSON parse dc dh b r = (None, \<lparr>Current = Some m, History = None\<rparr>)"
    using v by (simp add: UnmarshalJSON_decodable [of parse b kvs, OF p] m_def h)
  have keys: "map fst m = map fst (entries kvs)"
    by (simp add: m_def comp_def)
  have dm: "distinct (map fst m)"
    by (simp add: keys distinct_entries)
  have "fst ` set m = set (map fst m)" by simp
  also have "\<dots> = fst ` set (entries kvs)" unfolding keys by simp
  also have "\<dots> = fst ` set kvs" using nh by (simp add: keys_entries)
  finally have im: "fst ` set m = fst ` set kvs" .
  have empty: "kvs = [] \<longrightarrow> m = []"
    by (simp add: m_def entries_def)
  show "\<exists>m. UnmarshalJSON parse dc dh b r = (None, \<lparr>Current = Some m, History = None\<rparr>)
             \<and> distinct (map fst m) \<and> fst ` set m = fst ` set kvs \<and> (kvs = [] \<longrightarrow> m = [])"
    using res dm im empty by blast
qed

text \<open>The empty object, and an object of two tools.\<close>

theorem UnmarshalJSON_without_history_witness:
  "UnmarshalJSON (table_parse [(''{}'', JObject [])]) Unmarshal_CurrentState Some ''{}''
       \<lparr>Current = None, History = Some [Some (JNumber (1::int))]\<rparr> =
     (None, \<lparr>Current = Some [], History = None\<rparr>)
   \<and> fst (UnmarshalJSON
        (table_parse [(''{\"tool0\":{\"actual\":21},\"bed\":{}}'',
                       JObject [(''tool0'', JObject [(''actual'', JNumber (21::int))]), (''bed'', JObject [])])])
        Unmarshal_CurrentState Some ''{\"tool0\":{\"actual\":21},\"bed\":{}}'' zero_ToolResponse) = None"
proof -
  let ?p1 = "table_parse [(''{}'', JObject [] :: int json)]"
  let ?t2 = "''{\"tool0\":{\"actual\":21},\"bed\":{}}''"
  let ?k2 = "[(''tool0'', JObject [(''actual'', JNumber (21::int))]), (''bed'', JObject [])]"
  let ?p2 = "table_parse [(?t2, JObject ?k2)]"
  have p1: "?p1 ''{}'' = Inr (JObject [])"
    by (simp add: table_parse_def)
  have p2: "?p2 ?t2 = Inr (JObject ?k2)"
    by (simp add: table_parse_def)
  have n2: "''history'' \<notin> fst ` set ?k2"
    by simp
  have a2: "list_all (\<lambda>kv. Unmarshal_CurrentState (reencode (snd kv)) \<noteq> None) (entries ?k2)"
    by (simp add: entries_def reencode_def Unmarshal_CurrentState_def number_field_def)
  from UnmarshalJSON_without_history [of ?p1 "''{}''" "[]" Unmarshal_CurrentState Some
      "\<lparr>Current = None, History = Some [Some (JNumber (1::int))]\<rparr>", OF p1]
  have "UnmarshalJSON ?p1 Unmarshal_CurrentState Some ''{}''
       \<lparr>Current = None, History = Some [Some (JNumber (1::int))]\<rparr> =
     (None, \<lparr>Current = Some [], History = None\<rparr>)"
    by auto
  moreover from UnmarshalJSON_without_history [of ?p2 ?t2 ?k2 Unmarshal_CurrentState Some
      zero_ToolResponse, OF p2 n2] a2
  have "fst (UnmarshalJSON ?p2 Unmarshal_CurrentState Some ?t2 zero_ToolResponse) = None"
    by blast
  ultimately show ?thesis
    by simp
qed

text \<open>
  C2 as it is stated does not hold: the object \<^verbatim>\<open>{"tool0":5}\<close> has no key \<^verbatim>\<open>history\<close>,
  and its normalization returns an error, since a number is no tool state.
\<close>

theorem UnmarshalJSON_without_history_counterexample:
  "''history'' \<notin> fst ` set [(''tool0'', JNumber (5::int))]
   \<and> UnmarshalJSON (table_parse [(''{\"tool0\":5}'', JObject [(''tool0'', JNumber (5::int))])])
        Unmarshal_CurrentState Some ''{\"tool0\":5}'' zero_ToolResponse =
      (Some UnmarshalTypeError, zero_ToolResponse)"
proof -
  let ?parse = "table_parse [(''{\"tool0\":5}'', JObject [(''tool0'', JNumber (5::int))])]"
  have p: "?parse ''{\"tool0\":5}'' = Inr (JObject [(''tool0'', JNumber 5)])"
    by (simp add: table_parse_def)
  have "\<not> decodable Unmarshal_CurrentState (Some :: int json \<Rightarrow> _) [(''tool0'', JNumber 5)]"
    by (simp add: decodable_def entries_def reencode_def Unmarshal_CurrentState_def)
  then show ?thesis
    by (simp add: UnmarshalJSON_decodable [of ?parse _ _, OF p])
qed

subsection \<open>A null history\<close>

lemma entries_null_history:
  "entries (xs @ (''history'', v) # ys) = entries (xs @ ys)"
proof -
  have "AList.delete ''history'' (rev (xs @ (''history'', v) # ys)) =
        AList.delete ''history'' (rev (xs @ ys))"
    by (simp add: AList.delete_eq)
  then have "AList.clearjunk (AList.delete ''history'' (rev (xs @ (''history'', v) # ys))) =
        AList.clearjunk (AList.delete ''history'' (rev (xs @ ys)))"
    by (rule arg_cong)
  then show ?thesis
    by (simp only: entries_def clearjunk_delete)
qed

lemma member_null_history:
  assumes "''history'' \<notin> fst ` set (xs @ ys)"
  shows "member (xs @ (''history'', JNull) # ys) ''history'' = member (xs @ ys) ''history''"
proof -
  have "map_of (rev ys) ''history'' = None"
    using assms by (simp add: map_of_eq_None_iff image_Un)
  then have "member (xs @ (''history'', JNull) # ys) ''history'' = JNull"
    by (simp add: member_def map_add_def)
  then show ?thesis
    by (simp add: member_absent [OF assms])
qed

text \<open>
  C9. A payload in which the key \<^verbatim>\<open>history\<close> holds \<^verbatim>\<open>null\<close> (at any place among its
  members) normalizes as the payload without that member does: the same error or the same
  typed value, into the same receiver. When there is no error, \<open>History\<close> is the \<^verbatim>\<open>nil\<close>
  slice.
\<close>

theorem history_null_as_absent:
  assumes p1: "parse b1 = Inr (JObject (xs @ (''history'', JNull) # ys))"
    and p2: "parse b2 = Inr (JObject (xs @ ys))"
    and nh: "''history'' \<notin> fst ` set (xs @ ys)"
  shows "UnmarshalJSON parse dc dh b1 r = UnmarshalJSON parse dc dh b2 r
     \<and> (fst (UnmarshalJSON parse dc dh b1 r) = None \<longrightarrow>
          History (snd (UnmarshalJSON parse dc dh b1 r)) = None)"
proof -
  have d: "decodable dc dh (xs @ (''history'', JNull) # ys) = decodable dc dh (xs @ ys)"
    by (simp only: decodable_def entries_null_history member_null_history [OF nh])
  have eq: "UnmarshalJSON parse dc dh b1 r = UnmarshalJSON parse dc dh b2 r"
    unfolding UnmarshalJSON_decodable [of parse b1 _, OF p1] UnmarshalJSON_decodable [of parse b2 _, OF p2]
    by (simp only: d entries_null_history member_null_history [OF nh])
  have "fst (UnmarshalJSON parse dc dh b2 r) = None \<longrightarrow>
          History (snd (UnmarshalJSON parse dc dh b2 r)) = None"
    by (simp add: UnmarshalJSON_decodable [of parse b2 _, OF p2] history_of_absent [OF nh])
  with eq show ?thesis
    by simp
qed

text \<open>The payload of one tool, with \<^verbatim>\<open>"history":null\<close> before it and without.\<close>

theorem history_null_as_absent_witness:
  "UnmarshalJSON
      (table_parse [(''{\"history\":null,\"tool0\":{\"actual\":21}}'',
                      JObject [(''history'', JNull), (''tool0'', JObject [(''actual'', JNumber (21::int))])]),
                    (''{\"tool0\":{\"actual\":21}}'',
                      JObject [(''tool0'', JObject [(''actual'', JNumber 21)])])])
      Unmarshal_CurrentState Some ''{\"history\":null,\"tool0\":{\"actual\":21}}'' zero_ToolResponse =
    (None, \<lparr>Current = Some [(''tool0'', \<lparr>actual = 21, target = 0, offset = 0\<rparr>)], History = None\<rparr>)"
proof -
  let ?t1 = "''{\"history\":null,\"tool0\":{\"actual\":21}}''"
  let ?t2 = "''{\"tool0\":{\"actual\":21}}''"
  let ?ys = "[(''tool0'', JObject [(''actual'', JNumber (21::int))])]"
  let ?parse = "table_parse [(?t1, JObject ((''history'', JNull) # ?ys)), (?t2, JObject ?ys)]"
  have p1: "?parse ?t1 = Inr (JObject ([] @ (''history'', JNull) # ?ys))"
    by (simp add: table_parse_def)
  have p2: "?parse ?t2 = Inr (JObject ([] @ ?ys))"
    by (simp add: table_parse_def)
  have nh: "''history'' \<notin> fst ` set ([] @ ?ys)"
    by simp
  have v: "decodable Unmarshal_CurrentState (Some :: int json \<Rightarrow> _) ([] @ ?ys)"
    by (simp add: decodable_def entries_def reencode_def member_def Unmarshal_CurrentState_def
        number_field_def Unmarshal_History_def)
  have "UnmarshalJSON ?parse Unmarshal_CurrentState Some ?t2 zero_ToolResponse =
    (None, \<lparr>Current = Some [(''tool0'', \<lparr>actual = 21, target = 0, offset = 0\<rparr>)], History = None\<rparr>)"
    unfolding UnmarshalJSON_decodable [of ?parse ?t2 _, OF p2]
    using v by (simp add: entries_def reencode_def member_def Unmarshal_CurrentState_def
        number_field_def Unmarshal_History_def)
  with history_null_as_absent [of ?parse ?t1 "[]" ?ys ?t2 Unmarshal_CurrentState Some zero_ToolResponse,
      OF p1 p2 nh]
  show ?thesis
    by simp
qed

subsection \<open>Malformed payloads\<close>






subsection \<open>The fields of a tool entry\<close>

text \<open>
  C8, with the tool state of the spec. When every member of an object payload other than
  \<^verbatim>\<open>history\<close> is a tool entry (an object whose \<^verbatim>\<open>actual\<close>, \<^verbatim>\<open>target\<close> and \<^verbatim>\<open>offset\<close> are
  numbers or absent) and the history member decodes, normalization returns no error: an
  absent field is none. And whenever normalization returns no error, the state under a key
  whose member is an object has, in each of the three fields, the number that the member
  gives the field, and zero where the member lacks the field.
\<close>

theorem UnmarshalJSON_tool_fields:
  assumes p: "parse b = Inr (JObject kvs)"
  shows "((\<forall>kv \<in> set kvs. fst kv \<noteq> ''history'' \<longrightarrow> tool_entry (snd kv)) \<and>
          Unmarshal_History dh (reencode (member kvs ''history'')) \<noteq> None
          \<longrightarrow> fst (UnmarshalJSON parse Unmarshal_CurrentState dh b r) = None)
     \<and> (\<forall>m h k fs.
          UnmarshalJSON parse Unmarshal_CurrentState dh b r = (None, \<lparr>Current = Some m, History = h\<rparr>) \<and>
          k \<noteq> ''history'' \<and> map_of (rev kvs) k = Some (JObject fs) \<longrightarrow>
          (\<exists>c. map_of m k = Some c
            \<and> (\<forall>x. map_of (rev fs) ''actual'' = Some (JNumber x) \<longrightarrow> actual c = x)
            \<and> (map_of (rev fs) ''actual'' = None \<longrightarrow> actual c = 0)
            \<and> (\<forall>x. map_of (rev fs) ''target'' = Some (JNumber x) \<longrightarrow> target c = x)
            \<and> (map_of (rev fs) ''target'' = None \<longrightarrow> target c = 0)
            \<and> (\<forall>x. map_of (rev fs) ''offset'' = Some (JNumber x) \<longrightarrow> offset c = x)
            \<and> (map_of (rev fs) ''offset'' = None \<longrightarrow> offset c = 0)))"
proof (intro conjI impI allI)
  assume a: "(\<forall>kv \<in> set kvs. fst kv \<noteq> ''history'' \<longrightarrow> tool_entry (snd kv)) \<and>
          Unmarshal_History dh (reencode (member kvs ''history'')) \<noteq> None"
  have "Unmarshal_CurrentState (reencode (snd kv)) \<noteq> None" if kv: "kv \<in> set (entries kvs)" for kv
  proof -
    from kv have "fst kv \<in> fst ` set (entries kvs)" by simp
    then have "fst kv \<noteq> ''history''" by (simp add: keys_entries)
    moreover from kv have "kv \<in> set kvs" using set_entries_subset by blast
    ultimately have "tool_entry (snd kv)" using a by blast
    then show ?thesis
      by (simp only: Unmarshal_CurrentState_reencode tool_entry_decodes not_False_eq_True)
  qed
  then have "decodable Unmarshal_CurrentState dh kvs"
    using a by (simp add: decodable_def list_all_iff)
  then show "fst (UnmarshalJSON parse Unmarshal_CurrentState dh b r) = None"
    by (simp add: UnmarshalJSON_decodable [of parse b kvs, OF p])
next
  fix m h k fs
  assume a: "UnmarshalJSON parse Unmarshal_CurrentState dh b r = (None, \<lparr>Current = Some m, History = h\<rparr>) \<and>
          k \<noteq> ''history'' \<and> map_of (rev kvs) k = Some (JObject fs)"
  then have v: "decodable Unmarshal_CurrentState dh kvs"
    and m: "m = map (\<lambda>kv. (fst kv, the (Unmarshal_CurrentState (reencode (snd kv))))) (entries kvs)"
    by (auto simp add: UnmarshalJSON_decodable [of parse b kvs, OF p] split: if_splits)
  from a have look: "map_of (entries kvs) k = Some (JObject fs)"
    by (simp add: map_of_entries)
  then have "(k, JObject fs) \<in> set (entries kvs)"
    by (rule map_of_SomeD)
  with v obtain c where c: "Unmarshal_CurrentState (reencode (JObject fs)) = Some c"
    by (auto simp add: decodable_def list_all_iff)
  have mk: "map_of m k = Some c"
    by (simp add: m map_of_map_values [of "\<lambda>x. the (Unmarshal_CurrentState (reencode x))"] look c)
  from c have "Unmarshal_CurrentState (JObject fs) = Some c"
    by (simp only: Unmarshal_CurrentState_reencode)
  from decoded_fields [OF this]
  have f1: "number_field fs ''actual'' = Some (actual c)"
    and f2: "number_field fs ''target'' = Some (target c)"
    and f3: "number_field fs ''offset'' = Some (offset c)"
    by simp_all
  from mk decoded_field [OF f1] decoded_field [OF f2] decoded_field [OF f3]
  show "\<exists>c. map_of m k = Some c
            \<and> (\<forall>x. map_of (rev fs) ''actual'' = Some (JNumber x) \<longrightarrow> actual c = x)
            \<and> (map_of (rev fs) ''actual'' = None \<longrightarrow> actual c = 0)
            \<and> (\<forall>x. map_of (rev fs) ''target'' = Some (JNumber x) \<longrightarrow> target c = x)
            \<and> (map_of (rev fs) ''target'' = None \<longrightarrow> target c = 0)
            \<and> (\<forall>x. map_of (rev fs) ''offset'' = Some (JNumber x) \<longrightarrow> offset c = x)
            \<and> (map_of (rev fs) ''offset'' = None \<longrightarrow> offset c = 0)"
    by (intro exI [of _ c]) simp
qed

text \<open>A tool with its actual temperature only, and a bed without any field.\<close>

theorem UnmarshalJSON_tool_fields_witness:
  "UnmarshalJSON
      (table_parse [(''{\"tool0\":{\"actual\":21},\"bed\":{}}'',
                     JObject [(''tool0'', JObject [(''actual'', JNumber (21::int))]), (''bed'', JObject [])])])
      Unmarshal_CurrentState Some ''{\"tool0\":{\"actual\":21},\"bed\":{}}'' zero_ToolResponse =
    (None, \<lparr>Current = Some [(''bed'', \<lparr>actual = 0, target = 0, offset = 0\<rparr>),
                            (''tool0'', \<lparr>actual = 21, target = 0, offset = 0\<rparr>)],
            History = None\<rparr>)"
proof -
  let ?t = "''{\"tool0\":{\"actual\":21},\"bed\":{}}''"
  let ?k = "[(''tool0'', JObject [(''actual'', JNumber (21::int))]), (''bed'', JObject [])]"
  let ?p = "table_parse [(?t, JObject ?k)]"
  have p: "?p ?t = Inr (JObject ?k)"
    by (simp add: table_parse_def)
  have a: "(\<forall>kv \<in> set ?k. fst kv \<noteq> ''history'' \<longrightarrow> tool_entry (snd kv)) \<and>
          Unmarshal_History (Some :: int json \<Rightarrow> _) (reencode (member ?k ''history'')) \<noteq> None"
    by (simp add: tool_entry_def member_def reencode_def Unmarshal_History_def)
  from UnmarshalJSON_tool_fields [of ?p ?t ?k Some zero_ToolResponse, OF p] a
  have ok: "fst (UnmarshalJSON ?p Unmarshal_CurrentState Some ?t zero_ToolResponse) = None"
    by blast
  then have v: "decodable Unmarshal_CurrentState (Some :: int json \<Rightarrow> _) ?k"
    by (simp add: UnmarshalJSON_decodable [of ?p ?t ?k, OF p] split: if_splits)
  show ?thesis
    unfolding UnmarshalJSON_decodable [of ?p ?t ?k, OF p]
    using v by (simp add: entries_def reencode_def member_def Unmarshal_CurrentState_def
        number_field_def Unmarshal_History_def)
qed

subsection \<open>Back to the flat form\<close>

lemma sort_key_rev_sorted:
  assumes s: "sorted (map fst M)" and d: "distinct (map fst M)"
  shows "sort_key fst (rev M) = M"
proof (rule map_sorted_distinct_set_unique [where f = fst])
  show "inj_on fst (set (sort_key fst (rev M)) \<union> set M)"
    using d by (simp add: distinct_map)
  show "sorted (map fst (sort_key fst (rev M)))"
    by simp
  have "distinct (map fst (rev M))"
    using d by (simp add: rev_map [symmetric])
  then show "distinct (map fst (sort_key fst (rev M)))"
    by (rule distinct_keys_sort_key)
  show "sorted (map fst M)" by (fact s)
  show "distinct (map fst M)" by (fact d)
  show "set (sort_key fst (rev M)) = set M"
    by simp
qed

lemma entries_flat:
  assumes s: "sorted (map fst M)" and d: "distinct (map fst M)" and nh: "''history'' \<notin> fst ` set M"
  shows "entries (M @ [(''history'', H)]) = M"
proof -
  have dr: "distinct (map fst ((''history'', H) # rev M))"
    using d nh by (simp add: rev_map [symmetric])
  have "AList.delete ''history'' ((''history'', H) # rev M) = rev M"
    using nh by simp
  then show ?thesis
    unfolding entries_def rev_append rev.simps append.simps distinct_clearjunk_id [OF dr]
    by (simp only: sort_key_rev_sorted [OF s d])
qed

lemma member_flat: "member (M @ [(''history'', H)]) ''history'' = H"
  by (simp add: member_def)

lemma decode_elements_again:
  assumes "\<forall>x. Some x \<in> set hs \<longrightarrow> decode_pointer dh (reencode (eh x)) = Some (Some x)"
  shows "decode_elements dh (map reencode (map (case_option JNull eh) hs)) = Some hs"
  using assms
proof (induction hs)
  case Nil
  then show ?case by simp
next
  case (Cons h hs)
  then have ih: "decode_elements dh (map reencode (map (case_option JNull eh) hs)) = Some hs"
    by simp
  show ?case
  proof (cases h)
    case None
    have "decode_pointer dh (reencode JNull) = Some None"
      by (simp add: reencode_def decode_pointer_def)
    with ih show ?thesis
      by (simp add: None)
  next
    case (Some x)
    with Cons.prems have "decode_pointer dh (reencode (eh x)) = Some (Some x)"
      by simp
    with ih show ?thesis
      by (simp add: Some)
  qed
qed

lemma decode_again:
  assumes "\<forall>kv \<in> set m. dc (reencode (ec (snd kv))) = Some (snd kv)"
  shows "list_all (\<lambda>kv. dc (reencode (snd kv)) \<noteq> None) (map (map_prod id ec) m)"
    and "map (\<lambda>kv. (fst kv, the (dc (reencode (snd kv))))) (map (map_prod id ec) m) = m"
  using assms by (induction m) (auto simp add: list_all_iff)

text \<open>
  C7. When normalizing an object payload gives the typed value \<open>r\<close>, and the payload has no
  key \<^verbatim>\<open>history\<close>, the history of \<open>r\<close> has no elements. And normalizing the flat form of
  \<open>r\<close> (the members of \<open>Current\<close> and a \<^verbatim>\<open>history\<close> key, written by any encoders that the
  decoders read back) returns no error and gives the same \<open>Current\<close> and a history of the
  same elements: a slice that was \<^verbatim>\<open>nil\<close> comes back as the empty slice, which is the
  only difference there can be.
\<close>

theorem renormalize_flat_form:
  assumes p: "parse b = Inr (JObject kvs)"
    and n: "UnmarshalJSON parse dc dh b r0 = (None, r)"
    and p': "parse b' = Inr (flatten ec eh r)"
    and cc: "\<forall>kv \<in> set (elements (Current r)). dc (reencode (ec (snd kv))) = Some (snd kv)"
    and ch: "\<forall>x. Some x \<in> set (elements (History r)) \<longrightarrow>
               decode_pointer dh (reencode (eh x)) = Some (Some x)"
  shows "(''history'' \<notin> fst ` set kvs \<longrightarrow> elements (History r) = [])
     \<and> (\<exists>r'. UnmarshalJSON parse dc dh b' r1 = (None, r')
            \<and> Current r' = Current r
            \<and> elements (History r') = elements (History r))"
proof -
  define m where "m = map (\<lambda>kv. (fst kv, the (dc (reencode (snd kv))))) (entries kvs)"
  define h where "h = the (Unmarshal_History dh (reencode (member kvs ''history'')))"
  from n have v: "decodable dc dh kvs" and r: "r = \<lparr>Current = Some m, History = h\<rparr>"
    by (auto simp add: UnmarshalJSON_decodable [of parse b kvs, OF p] m_def h_def split: if_splits)
  have keys: "map fst m = map fst (entries kvs)"
    by (simp add: m_def comp_def)
  let ?M = "map (map_prod id ec) m"
  let ?H = "JArray (map (case_option JNull eh) (elements h))"
  have flat: "flatten ec eh r = JObject (?M @ [(''history'', ?H)])"
    by (simp add: flatten_def r elements_def)
  have kM: "map fst ?M = map fst (entries kvs)"
    by (simp only: keys_map_prod keys)
  have nh: "''history'' \<notin> fst ` set ?M"
  proof -
    have "fst ` set ?M = set (map fst ?M)"
      by (simp only: set_map)
    also have "\<dots> = fst ` set (entries kvs)"
      unfolding kM by (simp only: set_map)
    finally show ?thesis
      by (simp add: keys_entries)
  qed
  have e: "entries (?M @ [(''history'', ?H)]) = ?M"
  proof (rule entries_flat)
    show "sorted (map fst ?M)" unfolding kM by (rule sorted_entries)
    show "distinct (map fst ?M)" unfolding kM by (rule distinct_entries)
    show "''history'' \<notin> fst ` set ?M" by (fact nh)
  qed
  have cm: "\<forall>kv \<in> set m. dc (reencode (ec (snd kv))) = Some (snd kv)"
    using cc by (simp add: r elements_def)
  have hm: "\<forall>x. Some x \<in> set (elements h) \<longrightarrow> decode_pointer dh (reencode (eh x)) = Some (Some x)"
    using ch by (simp add: r)
  have hist: "Unmarshal_History dh (reencode (member (?M @ [(''history'', ?H)]) ''history'')) =
        Some (Some (elements h))"
    by (simp only: member_flat reencode_JArray Unmarshal_History_def json.case
        decode_elements_again [OF hm] option.map)
  have v': "decodable dc dh (?M @ [(''history'', ?H)])"
    unfolding decodable_def e hist using decode_again(1) [OF cm] by simp
  have res: "UnmarshalJSON parse dc dh b' r1 = (None, \<lparr>Current = Some m, History = Some (elements h)\<rparr>)"
  proof -
    have pp: "parse b' = Inr (JObject (?M @ [(''history'', ?H)]))"
      using p' flat by simp
    show ?thesis
      unfolding UnmarshalJSON_decodable [of parse b' "?M @ [(''history'', ?H)]", OF pp]
        e hist decode_again(2) [OF cm]
      using v' by simp
  qed
  have first: "''history'' \<notin> fst ` set kvs \<longrightarrow> elements (History r) = []"
    by (simp add: r h_def elements_def history_of_absent)
  from res have "\<exists>r'. UnmarshalJSON parse dc dh b' r1 = (None, r')
            \<and> Current r' = Current r
            \<and> elements (History r') = elements (History r)"
    by (simp add: r elements_def)
  with first show ?thesis
    by simp
qed

text \<open>
  A payload of one tool without history: its history has no elements, its flat form has
  the empty array under \<^verbatim>\<open>history\<close>, and normalizing that gives the same tool state and
  again no elements.
\<close>

theorem renormalize_flat_form_witness:
  "UnmarshalJSON
      (table_parse [(''{\"tool0\":{\"actual\":21}}'',
                      JObject [(''tool0'', JObject [(''actual'', JNumber (21::int))])]),
                    (''{\"tool0\":{\"actual\":21,\"target\":0,\"offset\":0},\"history\":[]}'',
                      JObject [(''tool0'', JObject [(''actual'', JNumber 21), (''target'', JNumber 0),
                                                    (''offset'', JNumber 0)]),
                               (''history'', JArray [])])])
      Unmarshal_CurrentState Some
      ''{\"tool0\":{\"actual\":21,\"target\":0,\"offset\":0},\"history\":[]}'' zero_ToolResponse =
    (None, \<lparr>Current = Some [(''tool0'', \<lparr>actual = 21, target = 0, offset = 0\<rparr>)], History = Some []\<rparr>)"
proof -
  let ?t = "''{\"tool0\":{\"actual\":21}}''"
  let ?k = "[(''tool0'', JObject [(''actual'', JNumber (21::int))])]"
  let ?t' = "''{\"tool0\":{\"actual\":21,\"target\":0,\"offset\":0},\"history\":[]}''"
  let ?k' = "[(''tool0'', JObject [(''actual'', JNumber (21::int)), (''target'', JNumber 0),
                                   (''offset'', JNumber 0)]),
              (''history'', JArray [])]"
  let ?p = "table_parse [(?t, JObject ?k), (?t', JObject ?k')]"
  let ?r = "\<lparr>Current = Some [(''tool0'', \<lparr>actual = 21 :: int, target = 0, offset = 0\<rparr>)],
             History = None :: int json option list option\<rparr>"
  have p: "?p ?t = Inr (JObject ?k)"
    by (simp add: table_parse_def)
  have v: "decodable Unmarshal_CurrentState (Some :: int json \<Rightarrow> _) ?k"
    by (simp add: decodable_def entries_def reencode_def member_def Unmarshal_CurrentState_def
        number_field_def Unmarshal_History_def)
  have n: "UnmarshalJSON ?p Unmarshal_CurrentState Some ?t zero_ToolResponse = (None, ?r)"
    unfolding UnmarshalJSON_decodable [of ?p ?t ?k, OF p]
    using v by (simp add: entries_def reencode_def member_def Unmarshal_CurrentState_def
        number_field_def Unmarshal_History_def)
  have p': "?p ?t' = Inr (flatten Marshal_CurrentState id ?r)"
    by (simp add: table_parse_def flatten_def elements_def Marshal_CurrentState_def)
  have cc: "\<forall>kv \<in> set (elements (Current ?r)).
              Unmarshal_CurrentState (reencode (Marshal_CurrentState (snd kv))) = Some (snd kv)"
    by (simp add: elements_def Marshal_CurrentState_def reencode_def Unmarshal_CurrentState_def
        number_field_def)
  have ch: "\<forall>x. Some x \<in> set (elements (History ?r)) \<longrightarrow>
               decode_pointer Some (reencode (id x)) = Some (Some x)"
    by (simp add: elements_def)
  from renormalize_flat_form [of ?p ?t ?k Unmarshal_CurrentState Some zero_ToolResponse ?r ?t'
      Marshal_CurrentState id zero_ToolResponse, OF p n p' cc ch]
  obtain r' where res: "UnmarshalJSON ?p Unmarshal_CurrentState Some ?t' zero_ToolResponse = (None, r')"
    and c: "Current r' = Current ?r" and h: "elements (History r') = elements (History ?r)"
    by blast
  have p2: "?p ?t' = Inr (JObject ?k')"
    by (simp add: table_parse_def)
  have "History r' = Some []"
    using res unfolding UnmarshalJSON_decodable [of ?p ?t' ?k', OF p2]
    by (auto simp add: member_def reencode_def Unmarshal_History_def split: if_splits)
  with res c show ?thesis
    by (cases r') simp
qed

end
